theory Spec2Isabelle
  imports Complex_Main "HOL-Library.Sublist" "HOL-Library.Char_ord" "HOL-Library.List_Lexorder"
begin

section \<open>Text primitives\<close>

text \<open>
  Review texts are Python \<open>str\<close> values. They are modelled as \<^typ>\<open>string\<close>, a list of
  8-bit characters, read as ASCII text: the character classes and the case mapping below
  are those of Python on the ASCII range. A missing text (\<open>None\<close>, pandas \<open>NaN\<close>) is
  \<^term>\<open>None :: string option\<close>. Python floats are modelled as \<^typ>\<open>real\<close>.

  \<open>is_space\<close> is \<open>str.isspace\<close> and the regular expression class \<open>\s\<close>;
  \<open>is_digit\<close> is \<open>\d\<close>; \<open>is_word\<close> is \<open>\w\<close>; \<open>lower\<close> is \<open>str.lower\<close>.
  From code point 128 on, Python's classes are larger: \<open>\w\<close> also matches the letters and
  numerals outside ASCII, \<open>\s\<close> and \<open>str.strip\<close> also take U+0085 and U+00A0 as whitespace,
  and \<open>str.lower\<close> also maps the capital letters outside ASCII. Texts with such characters
  are outside this model.
\<close>

definition is_space :: "char \<Rightarrow> bool" where
  "is_space c = (let n = (of_char c :: nat) in (9 \<le> n \<and> n \<le> 13) \<or> (28 \<le> n \<and> n \<le> 32))"

definition is_digit :: "char \<Rightarrow> bool" where
  "is_digit c = (let n = (of_char c :: nat) in 48 \<le> n \<and> n \<le> 57)"

definition is_upper :: "char \<Rightarrow> bool" where
  "is_upper c = (let n = (of_char c :: nat) in 65 \<le> n \<and> n \<le> 90)"

definition is_lower :: "char \<Rightarrow> bool" where
  "is_lower c = (let n = (of_char c :: nat) in 97 \<le> n \<and> n \<le> 122)"

definition is_word :: "char \<Rightarrow> bool" where
  "is_word c = (is_upper c \<or> is_lower c \<or> is_digit c \<or> c = CHR ''_'')"

definition lower_char :: "char \<Rightarrow> char" where
  "lower_char c = (if is_upper c then char_of ((of_char c :: nat) + 32) else c)"

definition lower :: "string \<Rightarrow> string" where
  "lower text = map lower_char text"

text \<open>\<open>str.strip()\<close>: whitespace removed at both ends.\<close>

definition strip :: "string \<Rightarrow> string" where
  "strip text = rev (dropWhile is_space (rev (dropWhile is_space text)))"

text \<open>\<open>needle in haystack\<close> on strings is \<^const>\<open>sublist\<close>: a contiguous occurrence.\<close>

section \<open>ThemeAnalyzer: the taxonomy and the rule-based classifier\<close>

text \<open>
  The vectorizer object of scikit-learn that \<open>ThemeAnalyzer.__init__\<close> creates: its
  hyper-parameters and the one piece of fitted state that the analyzer reads back,
  the attribute \<open>vocabulary_\<close>, here \<open>vocabulary\<close> (absent until the first successful fit).
\<close>

record TfidfVectorizer =
  max_features :: nat
  min_df :: nat
  max_df :: real
  vocabulary :: "string list option"

record ThemeAnalyzer =
  theme_keywords :: "(string \<times> string list) list"
  vectorizer :: TfidfVectorizer

text \<open>A Python \<open>dict\<close> keeps insertion order: the taxonomy is an association list.\<close>

definition initialize_theme_keywords :: "(string \<times> string list) list" where
  "initialize_theme_keywords =
    [(''APP_PERFORMANCE'',
        [''slow'', ''fast'', ''speed'', ''loading'', ''crash'', ''freeze'', ''lag'',
         ''performance'', ''responsive'', ''smooth'', ''hanging'']),
     (''RELIABILITY_ISSUES'',
        [''error'', ''bug'', ''glitch'', ''not working'', ''problem'', ''issue'',
         ''failed'', ''broken'', ''technical'', ''malfunction'', ''down'']),
     (''USER_INTERFACE'',
        [''interface'', ''design'', ''layout'', ''navigation'', ''menu'',
         ''button'', ''screen'', ''display'', ''theme'', ''color'', ''font'']),
     (''SECURITY_ACCESS'',
        [''login'', ''password'', ''security'', ''authentication'', ''biometric'',
         ''fingerprint'', ''face id'', ''pin'', ''verification'', ''access'']),
     (''TRANSACTIONS'',
        [''transfer'', ''payment'', ''transaction'', ''send money'', ''receive'',
         ''bill'', ''airtime'', ''mobile banking'', ''fund'', ''amount'']),
     (''CUSTOMER_SUPPORT'',
        [''support'', ''service'', ''help'', ''assistance'', ''response'',
         ''contact'', ''complaint'', ''feedback'', ''representative'']),
     (''FEATURE_REQUEST'',
        [''should'', ''could'', ''would'', ''please add'', ''need'', ''want'',
         ''missing'', ''suggestion'', ''improvement'', ''enhancement''])]"

definition ThemeAnalyzer_init :: ThemeAnalyzer where
  "ThemeAnalyzer_init =
    \<lparr> theme_keywords = initialize_theme_keywords,
      vectorizer = \<lparr> max_features = 100, min_df = 2, max_df = 8 / 10, vocabulary = None \<rparr> \<rparr>"

text \<open>
  The inner loop of \<open>classify_review_themes\<close>: one keyword adds 2 when it occurs in the
  space-padded text with a space on each side, 1 when it only occurs, 0 otherwise.
\<close>

definition keyword_weight :: "string \<Rightarrow> string \<Rightarrow> nat" where
  "keyword_weight text_lower keyword =
    (if sublist keyword text_lower then
       (if sublist ('' '' @ keyword @ '' '') ('' '' @ text_lower @ '' '') then 2 else 1)
     else 0)"

definition theme_score :: "string \<Rightarrow> string list \<Rightarrow> nat" where
  "theme_score text_lower keywords =
    foldl (\<lambda>score keyword. score + keyword_weight text_lower keyword) 0 keywords"

text \<open>The dict \<open>theme_scores\<close>: the themes with a positive score, in taxonomy order.\<close>

definition theme_scores :: "(string \<times> string list) list \<Rightarrow> string \<Rightarrow> (string \<times> nat) list" where
  "theme_scores taxonomy text_lower =
    filter (\<lambda>(theme, score). score > 0)
      (map (\<lambda>(theme, keywords). (theme, theme_score text_lower keywords)) taxonomy)"

text \<open>\<open>max(theme_scores.values())\<close>; the source only calls it on a non-empty dict.\<close>

fun max_of :: "nat list \<Rightarrow> nat" where
  "max_of [] = 0"
| "max_of (x # xs) = max x (max_of xs)"

definition classify_review_themes :: "ThemeAnalyzer \<Rightarrow> string option \<Rightarrow> real \<Rightarrow> string list" where
  "classify_review_themes self text threshold =
    (case text of
       None \<Rightarrow> []
     | Some t \<Rightarrow>
         if t = [] then []
         else
           let text_lower = lower t;
               scores = theme_scores (theme_keywords self) text_lower
           in if scores \<noteq> [] then
                let max_score = max_of (map snd scores)
                in map fst (filter (\<lambda>(theme, score). real score / real max_score \<ge> threshold) scores)
              else [])"

text \<open>The default threshold of \<open>classify_review_themes\<close>.\<close>

definition default_threshold :: real where
  "default_threshold = 1 / 10"

section \<open>ThemeAnalyzer: keyword extraction\<close>

text \<open>
  \<open>str.split()\<close> without a separator: the maximal runs of non-whitespace characters.
  \<open>split_acc\<close> carries the word read so far.
\<close>

fun split_acc :: "string \<Rightarrow> string \<Rightarrow> string list" where
  "split_acc w [] = (if w = [] then [] else [w])"
| "split_acc w (c # cs) =
    (if is_space c then (if w = [] then split_acc [] cs else w # split_acc [] cs)
     else split_acc (w @ [c]) cs)"

definition split :: "string \<Rightarrow> string list" where
  "split text = split_acc [] text"

text \<open>\<open>sep.join(words)\<close>.\<close>

fun join :: "string \<Rightarrow> string list \<Rightarrow> string" where
  "join sep [] = []"
| "join sep [w] = w"
| "join sep (w # ws) = w @ sep @ join sep ws"

text \<open>
  \<open>collections.Counter\<close>: a dict from element to count, in order of first insertion.
  \<open>most_common\<close> sorts by count, largest first, and keeps the insertion order among
  equal counts.
\<close>

fun counter_add :: "('a \<times> nat) list \<Rightarrow> 'a \<Rightarrow> ('a \<times> nat) list" where
  "counter_add [] x = [(x, 1)]"
| "counter_add ((y, c) # rest) x =
    (if x = y then (y, c + 1) # rest else (y, c) # counter_add rest x)"

definition Counter :: "'a list \<Rightarrow> ('a \<times> nat) list" where
  "Counter xs = foldl counter_add [] xs"

definition by_count_desc :: "('a \<times> nat) list \<Rightarrow> ('a \<times> nat) list" where
  "by_count_desc counts = sort_key (\<lambda>p. - int (snd p)) counts"

definition most_common :: "nat \<Rightarrow> ('a \<times> nat) list \<Rightarrow> ('a \<times> nat) list" where
  "most_common n counts = take n (by_count_desc counts)"

text \<open>
  \<open>extract_ngrams\<close>: for each text, the windows \<open>words[i:i + n]\<close> for
  \<open>i\<close> in \<open>range(len(words) - n + 1)\<close> (an empty range when the text has fewer than
  \<open>n\<close> words), joined by a space; then the \<open>top_n\<close> most common.
\<close>

definition ngrams_of_text :: "nat \<Rightarrow> string \<Rightarrow> string list" where
  "ngrams_of_text n text =
    (let words = split text
     in map (\<lambda>i. join '' '' (take n (drop i words))) [0 ..< length words + 1 - n])"

definition extract_ngrams :: "string list \<Rightarrow> nat \<Rightarrow> nat \<Rightarrow> (string \<times> nat) list" where
  "extract_ngrams texts n top_n = most_common top_n (Counter (concat (map (ngrams_of_text n) texts)))"

text \<open>
  The exceptions of the model. \<open>ValueError\<close> is what scikit-learn raises from
  \<open>fit_transform\<close>; \<open>NotFittedError\<close> from \<open>get_feature_names_out\<close> on an unfitted
  vectorizer; \<open>OtherException\<close> stands for any other exception (a failed inference).
\<close>

datatype py_exception = ValueError | NotFittedError | OtherException

text \<open>
  \<open>TfidfVectorizer.fit_transform\<close> is code of scikit-learn, not of the repository. Two
  parts of it are parameters of the model: \<open>analyze\<close>, the analyzer of the vectorizer
  (lower-casing, tokenisation, English stop-words, 1- and 2-grams), which maps a document
  to its terms, and \<open>weigh\<close>, the tf-idf weighting of a term-count matrix (rows are
  documents). The vocabulary and the document-frequency bounds are modelled as scikit-learn
  documents them: the vocabulary is the sorted set of terms; a term is kept when its
  document frequency is at least \<open>min_df\<close> (an absolute count) and at most
  \<open>max_df * n_doc\<close> (a proportion); when more than \<open>max_features\<close> terms remain,
  those of highest total frequency are kept. The call raises \<open>ValueError\<close> when the
  vocabulary is empty, when \<open>max_df * n_doc < min_df\<close>, and when no term remains after
  pruning; the attribute \<open>vocabulary_\<close> is assigned last, so a call that raises leaves the fitted
  state of the previous call in place.
\<close>

definition document_frequency :: "string list list \<Rightarrow> string \<Rightarrow> nat" where
  "document_frequency docs term = length (filter (\<lambda>d. term \<in> set d) docs)"

definition term_frequency :: "string list list \<Rightarrow> string \<Rightarrow> nat" where
  "term_frequency docs term = sum_list (map (\<lambda>d. count_list d term) docs)"

definition limit_features :: "string list list \<Rightarrow> string list \<Rightarrow> real \<Rightarrow> nat \<Rightarrow> nat \<Rightarrow> string list" where
  "limit_features docs terms high low limit =
    (let mask = filter (\<lambda>t. real (document_frequency docs t) \<le> high \<and> low \<le> document_frequency docs t) terms
     in if limit < length mask then
          (let top = take limit (sort_key (\<lambda>t. - int (term_frequency docs t)) mask)
           in filter (\<lambda>t. t \<in> set top) mask)
        else mask)"

definition fit_transform ::
  "(string \<Rightarrow> string list) \<Rightarrow> (nat list list \<Rightarrow> real list list) \<Rightarrow> TfidfVectorizer \<Rightarrow> string list
     \<Rightarrow> (py_exception + real list list) \<times> TfidfVectorizer" where
  "fit_transform analyze weigh v raw_documents =
    (let docs = map analyze raw_documents;
         terms = sort (remdups (concat docs))
     in if terms = [] then (Inl ValueError, v)
        else
          let n_doc = length docs;
              max_doc_count = max_df v * real n_doc;
              min_doc_count = min_df v
          in if max_doc_count < real min_doc_count then (Inl ValueError, v)
             else
               let kept = limit_features docs terms max_doc_count min_doc_count (max_features v)
               in if kept = [] then (Inl ValueError, v)
                  else (Inr (weigh (map (\<lambda>d. map (count_list d) kept) docs)),
                        v\<lparr>vocabulary := Some kept\<rparr>))"

definition get_feature_names_out :: "TfidfVectorizer \<Rightarrow> py_exception + string list" where
  "get_feature_names_out v =
    (case vocabulary v of None \<Rightarrow> Inl NotFittedError | Some names \<Rightarrow> Inr names)"

text \<open>\<open>tfidf_matrix.mean(axis=0)\<close>: the mean of each column.\<close>

definition mean_axis0 :: "real list list \<Rightarrow> real list" where
  "mean_axis0 m = map (\<lambda>col. sum_list col / real (length col)) (transpose m)"

text \<open>
  \<open>extract_keywords_tfidf\<close>. The analyzer object is passed in and returned: the call
  refits the one vectorizer that all groups share. Any exception inside the \<open>try\<close> block
  gives the empty list. \<open>list.sort(key, reverse=True)\<close> is stable.
\<close>

definition extract_keywords_tfidf ::
  "(string \<Rightarrow> string list) \<Rightarrow> (nat list list \<Rightarrow> real list list) \<Rightarrow> ThemeAnalyzer \<Rightarrow> string list \<Rightarrow> nat
     \<Rightarrow> (string \<times> real) list \<times> ThemeAnalyzer" where
  "extract_keywords_tfidf analyze weigh self texts top_n =
    (case fit_transform analyze weigh (vectorizer self) texts of
       (Inl e, v) \<Rightarrow> ([], self\<lparr>vectorizer := v\<rparr>)
     | (Inr tfidf_matrix, v) \<Rightarrow>
         (case get_feature_names_out v of
            Inl e \<Rightarrow> ([], self\<lparr>vectorizer := v\<rparr>)
          | Inr feature_names \<Rightarrow>
              let scores = mean_axis0 tfidf_matrix;
                  keyword_scores = zip feature_names scores
              in (take top_n (sort_key (\<lambda>p. - snd p) keyword_scores), self\<lparr>vectorizer := v\<rparr>)))"

text \<open>
  The loop of \<open>analyze_themes_by_bank\<close>, as far as the shared vectorizer goes: the
  groups' text lists are extracted one after the other on the same analyzer object.
\<close>

definition extract_for_groups ::
  "(string \<Rightarrow> string list) \<Rightarrow> (nat list list \<Rightarrow> real list list) \<Rightarrow> ThemeAnalyzer \<Rightarrow> string list list
     \<Rightarrow> ThemeAnalyzer" where
  "extract_for_groups analyze weigh self groups =
    foldl (\<lambda>s texts. snd (extract_keywords_tfidf analyze weigh s texts 20)) self groups"

section \<open>SentimentAnalyzer\<close>

text \<open>
  The two analyzers are external models and parameters here: \<open>classifier\<close> is the
  DistilBERT pipeline, which returns a label and a score or raises, and \<open>polarity\<close> is
  \<open>TextBlob(text).sentiment.polarity\<close>. Every function returns, beside its result, the
  list of calls it made to a model, so that "without invoking any model" can be stated.
\<close>

datatype model_call = DistilBERT_call string | TextBlob_call string

record SentimentAnalyzer =
  model_loaded :: bool
  use_textblob :: bool

definition analyze_sentiment_distilbert ::
  "(string \<Rightarrow> py_exception + string \<times> real) \<Rightarrow> string \<Rightarrow> (string \<times> real) \<times> model_call list" where
  "analyze_sentiment_distilbert classifier text =
    (if text = [] \<or> length (strip text) = 0 then ((''NEUTRAL'', 1 / 2), [])
     else
       (case classifier (take 512 text) of
          Inl e \<Rightarrow> ((''NEUTRAL'', 1 / 2), [DistilBERT_call (take 512 text)])
        | Inr (label, score) \<Rightarrow>
            ((if label = ''POSITIVE'' then (''POSITIVE'', score)
              else if label = ''NEGATIVE'' then (''NEGATIVE'', score)
              else (''NEUTRAL'', 1 / 2)),
             [DistilBERT_call (take 512 text)])))"

definition analyze_sentiment_textblob ::
  "(string \<Rightarrow> real) \<Rightarrow> string \<Rightarrow> (string \<times> real) \<times> model_call list" where
  "analyze_sentiment_textblob polarity text =
    (let p = polarity text
     in ((if p > 1 / 10 then (''POSITIVE'', (p + 1) / 2)
          else if p < - (1 / 10) then (''NEGATIVE'', (1 - p) / 2)
          else (''NEUTRAL'', 1 / 2)),
         [TextBlob_call text]))"

text \<open>The body of the loop of \<open>analyze_dataframe\<close>: the strategy chosen at construction.\<close>

definition analyze_text ::
  "SentimentAnalyzer \<Rightarrow> (string \<Rightarrow> py_exception + string \<times> real) \<Rightarrow> (string \<Rightarrow> real) \<Rightarrow> string
     \<Rightarrow> (string \<times> real) \<times> model_call list" where
  "analyze_text self classifier polarity text =
    (if model_loaded self then analyze_sentiment_distilbert classifier text
     else if use_textblob self then analyze_sentiment_textblob polarity text
     else ((''NEUTRAL'', 1 / 2), []))"

section \<open>Text cleaning\<close>

text \<open>
  The regular-expression substitutions of \<open>clean_text\<close>, each as a left-to-right scan.
  \<open>sub_url\<close> is \<open>re.sub(r'http\S+', '', text)\<close>: a match starts at an \<open>http\<close> that a
  non-whitespace character follows and runs to the end of the non-whitespace run; the flag
  says that the scan is inside a match. \<open>sub_tag\<close> is \<open>re.sub(r'@\w+', '', text)\<close> and,
  with \<open>#\<close>, \<open>re.sub(r'#\w+', '', text)\<close>.
\<close>

definition url_start :: "string \<Rightarrow> bool" where
  "url_start s =
    (prefix ''http'' s \<and> (case drop 4 s of [] \<Rightarrow> False | x # xs \<Rightarrow> \<not> is_space x))"

fun sub_url :: "bool \<Rightarrow> string \<Rightarrow> string" where
  "sub_url del [] = []"
| "sub_url del (c # cs) =
    (if del \<and> \<not> is_space c then sub_url True cs
     else if url_start (c # cs) then sub_url True cs
     else c # sub_url False cs)"

fun sub_tag :: "char \<Rightarrow> bool \<Rightarrow> string \<Rightarrow> string" where
  "sub_tag tag del [] = []"
| "sub_tag tag del (c # cs) =
    (if del \<and> is_word c then sub_tag tag True cs
     else if c = tag \<and> (case cs of [] \<Rightarrow> False | x # xs \<Rightarrow> is_word x) then sub_tag tag True cs
     else c # sub_tag tag False cs)"

text \<open>\<open>re.sub(r'\d+', '', text)\<close> and \<open>re.sub(r'[^\w\s]', ' ', text)\<close>.\<close>

definition sub_digits :: "string \<Rightarrow> string" where
  "sub_digits text = filter (\<lambda>c. \<not> is_digit c) text"

definition sub_punct :: "string \<Rightarrow> string" where
  "sub_punct text = map (\<lambda>c. if is_word c \<or> is_space c then c else CHR '' '') text"

text \<open>\<open>re.sub(r'\s+', ' ', text)\<close>; the flag says that the previous character was whitespace.\<close>

fun sub_spaces :: "bool \<Rightarrow> string \<Rightarrow> string" where
  "sub_spaces prev [] = []"
| "sub_spaces prev (c # cs) =
    (if is_space c then (if prev then sub_spaces True cs else CHR '' '' # sub_spaces True cs)
     else c # sub_spaces False cs)"

definition clean_text :: "string option \<Rightarrow> string" where
  "clean_text text =
    (case text of
       None \<Rightarrow> []
     | Some t \<Rightarrow>
         strip (sub_spaces False (sub_punct (sub_digits
           (sub_tag CHR ''#'' False (sub_tag CHR ''@'' False (sub_url False (lower t))))))))"

section \<open>Aggregation over annotated reviews\<close>

text \<open>
  One row of the annotated data frame. \<open>identified_themes\<close> is the comma-joined list of
  theme tags, the literal \<open>No themes\<close>, or missing (\<open>NaN\<close>, here \<^term>\<open>None\<close>).
\<close>

record review =
  bank :: string
  rating :: int
  sentiment_label :: string
  sentiment_score :: real
  identified_themes :: "string option"

text \<open>\<open>Series.unique()\<close>: the distinct values in order of first appearance.\<close>

fun unique :: "'a list \<Rightarrow> 'a list" where
  "unique [] = []"
| "unique (x # xs) = x # removeAll x (unique xs)"

text \<open>
  \<open>Series.value_counts()\<close>: the distinct values with their counts, largest count first.
  \<open>Series.mean()\<close> and \<open>Series.std()\<close> (the sample standard deviation, \<open>ddof=1\<close>) are
  \<open>NaN\<close>, here \<^term>\<open>None\<close>, on too few values; a comparison with \<open>NaN\<close> is false.
\<close>

definition value_counts :: "'a list \<Rightarrow> ('a \<times> nat) list" where
  "value_counts xs = by_count_desc (Counter xs)"

definition mean :: "real list \<Rightarrow> real option" where
  "mean xs = (if xs = [] then None else Some (sum_list xs / real (length xs)))"

definition std :: "real list \<Rightarrow> real option" where
  "std xs =
    (if length xs < 2 then None
     else
       let m = sum_list xs / real (length xs)
       in Some (sqrt (sum_list (map (\<lambda>x. (x - m)\<^sup>2) xs) / real (length xs - 1))))"

text \<open>\<open>themes.split(',')\<close> and the list comprehension over its parts.\<close>

fun split_on :: "char \<Rightarrow> string \<Rightarrow> string list" where
  "split_on sep [] = [[]]"
| "split_on sep (c # cs) =
    (if c = sep then [] # split_on sep cs
     else (case split_on sep cs of [] \<Rightarrow> [[c]] | w # ws \<Rightarrow> (c # w) # ws))"

definition theme_list :: "string \<Rightarrow> string list" where
  "theme_list themes =
    map strip (filter (\<lambda>t. strip t \<noteq> ''No themes'') (split_on CHR '','' themes))"

text \<open>\<open>Series.dropna()\<close>.\<close>

definition dropna :: "'a option list \<Rightarrow> 'a list" where
  "dropna xs = concat (map (\<lambda>x. case x of None \<Rightarrow> [] | Some v \<Rightarrow> [v]) xs)"

definition bank_data :: "review list \<Rightarrow> string \<Rightarrow> review list" where
  "bank_data df b = filter (\<lambda>r. bank r = b) df"

text \<open>
  \<open>generate_sentiment_report\<close>, the entry \<open>sentiment_by_bank\<close>:
  \<open>df.groupby('bank')['sentiment_label'].value_counts()\<close> gives each bank its label counts;
  \<open>unstack().to_dict()\<close> turns them into a dict from label to a dict from bank to the count,
  \<open>NaN\<close> (here \<^term>\<open>None\<close>) where a bank has no row of that label.
\<close>

definition sentiment_counts_by_bank :: "review list \<Rightarrow> (string \<times> (string \<times> nat) list) list" where
  "sentiment_counts_by_bank df =
    map (\<lambda>b. (b, value_counts (map sentiment_label (bank_data df b)))) (unique (map bank df))"

definition unstack_to_dict ::
  "(string \<times> (string \<times> nat) list) list \<Rightarrow> (string \<times> (string \<times> nat option) list) list" where
  "unstack_to_dict grouped =
    (let labels = unique (concat (map (\<lambda>g. map fst (snd g)) grouped))
     in map (\<lambda>l. (l, map (\<lambda>g. (fst g, map_of (snd g) l)) grouped)) labels)"

definition sentiment_by_bank :: "review list \<Rightarrow> (string \<times> (string \<times> nat option) list) list" where
  "sentiment_by_bank df = unstack_to_dict (sentiment_counts_by_bank df)"

text \<open>Reading one count of the report; an absent label and \<open>NaN\<close> count as 0.\<close>

definition report_count :: "(string \<times> (string \<times> nat option) list) list \<Rightarrow> string \<Rightarrow> string \<Rightarrow> nat" where
  "report_count table l b =
    (case map_of table l of
       None \<Rightarrow> 0
     | Some col \<Rightarrow> (case map_of col b of None \<Rightarrow> 0 | Some None \<Rightarrow> 0 | Some (Some c) \<Rightarrow> c))"

text \<open>\<open>identify_pain_points\<close>: one entry per bank.\<close>

record pain_point_entry =
  negative_review_count :: nat
  negative_percentage :: real
  top_pain_points :: "(string \<times> nat) list"
  avg_rating_negative :: "real option"

definition negative_reviews :: "review list \<Rightarrow> string \<Rightarrow> review list" where
  "negative_reviews df b = filter (\<lambda>r. sentiment_label r = ''NEGATIVE'') (bank_data df b)"

definition negative_themes :: "review list \<Rightarrow> string \<Rightarrow> string list" where
  "negative_themes df b =
    concat (map theme_list (dropna (map identified_themes (negative_reviews df b))))"

definition pain_points_of_bank :: "review list \<Rightarrow> string \<Rightarrow> pain_point_entry" where
  "pain_points_of_bank df b =
    (if length (negative_reviews df b) > 0 then
       \<lparr> negative_review_count = length (negative_reviews df b),
         negative_percentage =
           real (length (negative_reviews df b)) / real (length (bank_data df b)) * 100,
         top_pain_points = take 3 (value_counts (negative_themes df b)),
         avg_rating_negative = mean (map (\<lambda>r. real_of_int (rating r)) (negative_reviews df b)) \<rparr>
     else
       \<lparr> negative_review_count = 0, negative_percentage = 0, top_pain_points = [],
         avg_rating_negative = None \<rparr>)"

definition identify_pain_points :: "review list \<Rightarrow> (string \<times> pain_point_entry) list" where
  "identify_pain_points df = map (\<lambda>b. (b, pain_points_of_bank df b)) (unique (map bank df))"

text \<open>
  \<open>identify_ethical_considerations\<close>. The three messages are a datatype; the first carries
  the percentage that the message prints.
\<close>

datatype consideration = High_negative_bias real | Polarized_ratings | Uneven_sample_sizes

text \<open>\<open>rating_dist.get(k, 0)\<close> on \<open>value_counts(normalize=True)\<close>.\<close>

definition rating_dist_get :: "review list \<Rightarrow> int \<Rightarrow> real" where
  "rating_dist_get df k =
    (case map_of (value_counts (map rating df)) k of
       None \<Rightarrow> 0
     | Some c \<Rightarrow> real c / real (sum_list (map snd (value_counts (map rating df)))))"

definition reviews_per_bank :: "review list \<Rightarrow> real list" where
  "reviews_per_bank df = map (\<lambda>p. real (snd p)) (value_counts (map bank df))"

definition identify_ethical_considerations :: "review list \<Rightarrow> consideration list" where
  "identify_ethical_considerations df =
    (case mean (map (\<lambda>r. if sentiment_label r = ''NEGATIVE'' then 1 else 0) df) of
       None \<Rightarrow> []
     | Some m \<Rightarrow> if m * 100 > 70 then [High_negative_bias (m * 100)] else [])
    @ (if rating_dist_get df 1 > 4 / 10 \<or> rating_dist_get df 5 > 4 / 10 then [Polarized_ratings]
       else [])
    @ (case (std (reviews_per_bank df), mean (reviews_per_bank df)) of
         (Some s, Some m) \<Rightarrow> if s / m > 3 / 10 then [Uneven_sample_sizes] else []
       | _ \<Rightarrow> [])"

section \<open>The notions the specification uses\<close>

text \<open>
  A whole-word occurrence of \<open>kw\<close> in \<open>text\<close>, for a given class of delimiters: \<open>kw\<close>
  occurs with, on each side, the end of the text or a delimiter. \<open>whole_word_from\<close> is the
  same as a scan, for evaluation; its flag says that the position is at a word boundary.
\<close>

definition whole_word :: "(char \<Rightarrow> bool) \<Rightarrow> string \<Rightarrow> string \<Rightarrow> bool" where
  "whole_word delim kw text =
    (\<exists>pre post. text = pre @ kw @ post \<and> (pre = [] \<or> delim (last pre)) \<and> (post = [] \<or> delim (hd post)))"

definition word_here :: "(char \<Rightarrow> bool) \<Rightarrow> string \<Rightarrow> string \<Rightarrow> bool" where
  "word_here delim kw s =
    (prefix kw s \<and> (case drop (length kw) s of [] \<Rightarrow> True | x # xs \<Rightarrow> delim x))"

fun whole_word_from :: "(char \<Rightarrow> bool) \<Rightarrow> bool \<Rightarrow> string \<Rightarrow> string \<Rightarrow> bool" where
  "whole_word_from delim b kw [] = (b \<and> kw = [])"
| "whole_word_from delim b kw (c # cs) =
    ((b \<and> word_here delim kw (c # cs)) \<or> whole_word_from delim (delim c) kw cs)"

text \<open>
  The score of a theme as the specification words it: 2 for a keyword that occurs as a
  whole word, 1 for one that only occurs as a substring, 0 otherwise, summed over the
  keywords. A theme is assigned when its score is positive and at least \<open>threshold\<close> times
  the largest score of a theme with a positive score.
\<close>

definition spec_weight :: "(char \<Rightarrow> bool) \<Rightarrow> string \<Rightarrow> string \<Rightarrow> nat" where
  "spec_weight delim text kw =
    (if whole_word delim kw text then 2 else if sublist kw text then 1 else 0)"

definition spec_score :: "(char \<Rightarrow> bool) \<Rightarrow> string \<Rightarrow> string list \<Rightarrow> nat" where
  "spec_score delim text kws = sum_list (map (spec_weight delim text) kws)"

definition nonzero_scores :: "(char \<Rightarrow> bool) \<Rightarrow> (string \<times> string list) list \<Rightarrow> string \<Rightarrow> nat set" where
  "nonzero_scores delim taxonomy text =
    {s. \<exists>theme kws. (theme, kws) \<in> set taxonomy \<and> s = spec_score delim text kws \<and> 0 < s}"

definition spec_assigned ::
  "(char \<Rightarrow> bool) \<Rightarrow> (string \<times> string list) list \<Rightarrow> string \<Rightarrow> real \<Rightarrow> string \<Rightarrow> bool" where
  "spec_assigned delim taxonomy text threshold theme =
    (\<exists>kws. (theme, kws) \<in> set taxonomy \<and> 0 < spec_score delim text kws \<and>
       threshold \<le> real (spec_score delim text kws) / real (Max (nonzero_scores delim taxonomy text)))"

definition is_blank :: "char \<Rightarrow> bool" where
  "is_blank c = (c = CHR '' '')"

text \<open>
  The shares and the coefficient of variation of the bias heuristics: the share of the rows
  that satisfy a predicate, and the sample standard deviation of the banks' review counts
  divided by their mean.
\<close>

definition share :: "('a \<Rightarrow> bool) \<Rightarrow> 'a list \<Rightarrow> real" where
  "share P xs = real (length (filter P xs)) / real (length xs)"

definition banks :: "review list \<Rightarrow> string set" where
  "banks df = bank ` set df"

definition mean_reviews :: "review list \<Rightarrow> real" where
  "mean_reviews df = (\<Sum>b \<in> banks df. real (length (bank_data df b))) / real (card (banks df))"

definition coefficient_of_variation :: "review list \<Rightarrow> real" where
  "coefficient_of_variation df =
    sqrt ((\<Sum>b \<in> banks df. (real (length (bank_data df b)) - mean_reviews df)\<^sup>2)
            / real (card (banks df) - 1))
      / mean_reviews df"

text \<open>
  A text has a URL-like token when \<open>http\<close> occurs in it before a non-whitespace character,
  that is, when \<open>re.search(r'http\S+', text)\<close> finds a match.
\<close>

fun has_url :: "string \<Rightarrow> bool" where
  "has_url [] = False"
| "has_url (c # cs) = (url_start (c # cs) \<or> has_url cs)"

text \<open>
  A text is collapsed when each of its whitespace characters is a space character that no
  whitespace precedes; the flag says that whitespace precedes the text.
\<close>

fun collapsed :: "bool \<Rightarrow> string \<Rightarrow> bool" where
  "collapsed prev [] = True"
| "collapsed prev (c # cs) =
    (if is_space c then \<not> prev \<and> c = CHR '' '' \<and> collapsed True cs else collapsed False cs)"

text \<open>Two vectorizers have the same hyper-parameters; they may differ in their fitted state.\<close>

definition same_hyper :: "TfidfVectorizer \<Rightarrow> TfidfVectorizer \<Rightarrow> bool" where
  "same_hyper v v' =
    (max_features v = max_features v' \<and> min_df v = min_df v' \<and> max_df v = max_df v')"

text \<open>
  Three annotated reviews of one bank, as the pipeline writes them: one positive and two
  negative.
\<close>

definition example_reviews :: "review list" where
  "example_reviews =
    [\<lparr> bank = ''A'', rating = 5, sentiment_label = ''POSITIVE'', sentiment_score = 99 / 100,
       identified_themes = Some ''APP_PERFORMANCE, TRANSACTIONS'' \<rparr>,
     \<lparr> bank = ''A'', rating = 1, sentiment_label = ''NEGATIVE'', sentiment_score = 98 / 100,
       identified_themes = Some ''SECURITY_ACCESS'' \<rparr>,
     \<lparr> bank = ''A'', rating = 2, sentiment_label = ''NEGATIVE'', sentiment_score = 97 / 100,
       identified_themes = Some ''APP_PERFORMANCE, TRANSACTIONS'' \<rparr>]"

text \<open>A text whose words are separated by tabs.\<close>

definition tabbed_text :: string where
  "tabbed_text = ''slow'' @ [CHR 0x09] @ ''fast'' @ [CHR 0x09] @ ''speed'' @ [CHR 0x09]
     @ ''loading'' @ [CHR 0x09] @ ''crash'' @ [CHR 0x09] @ ''freeze'' @ [CHR 0x09] @ ''errors''"

text \<open>
  The character classes and the case mapping above are those of Python on the ASCII range,
  the code points below 128. A text is in that range when each of its characters is; a
  missing text is.
\<close>

definition is_ascii :: "char \<Rightarrow> bool" where
  "is_ascii c = ((of_char c :: nat) < 128)"

definition ascii_text :: "string option \<Rightarrow> bool" where
  "ascii_text text = (case text of None \<Rightarrow> True | Some t \<Rightarrow> list_all is_ascii t)"

text \<open>The sample text of the module's example usage.\<close>

definition sample_text :: string where
  "sample_text = ''The app is amazing! But it crashes sometimes. ''"

section \<open>Shared state of the keyword extractor\<close>

lemma fit_transform_hyper: "same_hyper (snd (fit_transform a w v texts)) v"
  by (simp add: fit_transform_def same_hyper_def Let_def)

lemma fit_transform_same:
  assumes "same_hyper v v'"
  shows "fst (fit_transform a w v texts) = fst (fit_transform a w v' texts)"
    and "get_feature_names_out (snd (fit_transform a w v texts))
           = get_feature_names_out (snd (fit_transform a w v' texts))
         \<or> (\<exists>e. fst (fit_transform a w v texts) = Inl e)"
  using assms
  by (simp_all add: fit_transform_def same_hyper_def Let_def get_feature_names_out_def)

lemma extract_same:
  assumes "same_hyper (vectorizer self) (vectorizer self')"
  shows "fst (extract_keywords_tfidf a w self texts n)
           = fst (extract_keywords_tfidf a w self' texts n)"
proof -
  obtain r v where rv: "fit_transform a w (vectorizer self) texts = (r, v)"
    by (cases "fit_transform a w (vectorizer self) texts")
  obtain r' v' where rv': "fit_transform a w (vectorizer self') texts = (r', v')"
    by (cases "fit_transform a w (vectorizer self') texts")
  from fit_transform_same[OF assms, of a w texts] rv rv'
  have r: "r' = r"
    and names: "get_feature_names_out v = get_feature_names_out v' \<or> (\<exists>e. r = Inl e)"
    by simp_all
  show ?thesis
  proof (cases r)
    case (Inl e)
    then show ?thesis using rv rv' r by (simp add: extract_keywords_tfidf_def)
  next
    case (Inr m)
    then have "get_feature_names_out v = get_feature_names_out v'" using names by auto
    then show ?thesis using rv rv' r Inr
      by (simp add: extract_keywords_tfidf_def Let_def split: sum.splits)
  qed
qed

lemma extract_hyper:
  "same_hyper (vectorizer (snd (extract_keywords_tfidf a w self texts n))) (vectorizer self)"
proof -
  obtain r v where rv: "fit_transform a w (vectorizer self) texts = (r, v)"
    by (cases "fit_transform a w (vectorizer self) texts")
  have "same_hyper v (vectorizer self)"
    using fit_transform_hyper[of a w "vectorizer self" texts] rv by simp
  then show ?thesis using rv
    by (auto simp: extract_keywords_tfidf_def Let_def split: sum.splits)
qed

lemma same_hyper_trans: "same_hyper a b \<Longrightarrow> same_hyper b c \<Longrightarrow> same_hyper a c"
  by (simp add: same_hyper_def)

lemma same_hyper_refl: "same_hyper a a"
  by (simp add: same_hyper_def)

lemma extract_for_groups_hyper:
  "same_hyper (vectorizer (extract_for_groups a w self groups)) (vectorizer self)"
proof (induction groups arbitrary: self)
  case Nil
  then show ?case by (simp add: extract_for_groups_def same_hyper_refl)
next
  case (Cons g gs)
  have "extract_for_groups a w self (g # gs)
          = extract_for_groups a w (snd (extract_keywords_tfidf a w self g 20)) gs"
    by (simp add: extract_for_groups_def)
  then show ?case
    using Cons[of "snd (extract_keywords_tfidf a w self g 20)"] extract_hyper[of a w self g 20]
    by (auto intro: same_hyper_trans)
qed

lemma extract_theme_keywords:
  "theme_keywords (snd (extract_keywords_tfidf a w self texts n)) = theme_keywords self"
  by (auto simp: extract_keywords_tfidf_def Let_def split: sum.splits prod.splits)

lemma extract_for_groups_theme_keywords:
  "theme_keywords (extract_for_groups a w self groups) = theme_keywords self"
  unfolding extract_for_groups_def
  by (induction groups arbitrary: self) (simp_all add: extract_theme_keywords)

text \<open>
  Claim C2. The ranking that \<open>extract_keywords_tfidf\<close> returns for a group's texts is a
  function of those texts alone, although one vectorizer object is shared and refit on
  every call: the ranking is the same whatever other groups were extracted before on the
  same analyzer object, and a second call on the same texts right after the first returns
  the same ranking. The analyzer and the tf-idf weighting of scikit-learn are arbitrary
  functions of the documents here.
\<close>

theorem keyword_ranking_independent_of_history:
  "fst (extract_keywords_tfidf analyze weigh (extract_for_groups analyze weigh self groups) texts n)
     = fst (extract_keywords_tfidf analyze weigh self texts n)
   \<and> fst (extract_keywords_tfidf analyze weigh
            (snd (extract_keywords_tfidf analyze weigh self texts n)) texts n)
     = fst (extract_keywords_tfidf analyze weigh self texts n)"
  using extract_same[OF extract_for_groups_hyper] extract_same[OF extract_hyper] by blast

section \<open>The rule-based theme classifier\<close>

lemma classify_keywords_only:
  "theme_keywords self = theme_keywords self'
    \<Longrightarrow> classify_review_themes self t th = classify_review_themes self' t th"
  by (cases t) (simp_all add: classify_review_themes_def)

lemma classify_subseq:
  "subseq (classify_review_themes self t th) (map fst (theme_keywords self))"
proof -
  have a: "map fst (map (\<lambda>(theme, keywords). (theme, theme_score tl keywords)) xs) = map fst xs"
    for tl and xs :: "(string \<times> string list) list"
    by (induction xs) auto
  have "subseq (map fst (filter P (theme_scores (theme_keywords self) tl)))
          (map fst (theme_keywords self))" for P tl
  proof -
    have "subseq (map fst (filter P (theme_scores (theme_keywords self) tl)))
            (map fst (map (\<lambda>(theme, keywords). (theme, theme_score tl keywords))
               (theme_keywords self)))"
      unfolding theme_scores_def filter_filter by (intro subseq_map subseq_filter_left)
    then show ?thesis by (simp only: a)
  qed
  then show ?thesis
    by (cases t) (simp_all add: classify_review_themes_def Let_def)
qed

text \<open>
  Claim C8. \<open>classify_review_themes\<close> is deterministic: its result is a function of the
  text, the threshold and the fixed taxonomy, and is the same on the analyzer as constructed
  and on the analyzer after any sequence of keyword extractions (the only state the object
  has). The themes it returns are listed in taxonomy insertion order, never reordered by
  score: the result is a subsequence of the list of the taxonomy's keys.
\<close>

theorem classify_deterministic_in_taxonomy_order:
  "classify_review_themes (extract_for_groups analyze weigh ThemeAnalyzer_init groups) t th
     = classify_review_themes ThemeAnalyzer_init t th
   \<and> subseq (classify_review_themes ThemeAnalyzer_init t th)
       [''APP_PERFORMANCE'', ''RELIABILITY_ISSUES'', ''USER_INTERFACE'', ''SECURITY_ACCESS'',
        ''TRANSACTIONS'', ''CUSTOMER_SUPPORT'', ''FEATURE_REQUEST'']"
proof
  show "classify_review_themes (extract_for_groups analyze weigh ThemeAnalyzer_init groups) t th
          = classify_review_themes ThemeAnalyzer_init t th"
    by (rule classify_keywords_only) (rule extract_for_groups_theme_keywords)
  have "map fst (theme_keywords ThemeAnalyzer_init)
          = [''APP_PERFORMANCE'', ''RELIABILITY_ISSUES'', ''USER_INTERFACE'', ''SECURITY_ACCESS'',
             ''TRANSACTIONS'', ''CUSTOMER_SUPPORT'', ''FEATURE_REQUEST'']"
    by (simp add: ThemeAnalyzer_init_def initialize_theme_keywords_def)
  then show "subseq (classify_review_themes ThemeAnalyzer_init t th)
       [''APP_PERFORMANCE'', ''RELIABILITY_ISSUES'', ''USER_INTERFACE'', ''SECURITY_ACCESS'',
        ''TRANSACTIONS'', ''CUSTOMER_SUPPORT'', ''FEATURE_REQUEST'']"
    using classify_subseq[of ThemeAnalyzer_init t th] by simp
qed

text \<open>
  Claim C9. For the text \<open>app is slow and keeps crashing\<close> and the default threshold, the
  classifier returns a list that contains \<open>APP_PERFORMANCE\<close>: the keyword \<open>slow\<close> matches
  as a whole word (weight 2) and the keyword \<open>crash\<close> as a substring of \<open>crashing\<close>
  (weight 1).
\<close>

theorem slow_and_crashing_is_app_performance:
  "''APP_PERFORMANCE'' \<in> set (classify_review_themes ThemeAnalyzer_init
       (Some ''app is slow and keeps crashing'') default_threshold)
   \<and> keyword_weight (lower ''app is slow and keeps crashing'') ''slow'' = 2
   \<and> keyword_weight (lower ''app is slow and keeps crashing'') ''crash'' = 1"
  by code_simp

lemma theme_score_sum: "theme_score txt kws = sum_list (map (keyword_weight txt) kws)"
proof -
  have "foldl (\<lambda>score keyword. score + keyword_weight txt keyword) a kws
          = a + sum_list (map (keyword_weight txt) kws)" for a
    by (induction kws arbitrary: a) simp_all
  then show ?thesis by (simp add: theme_score_def)
qed

lemma space_not_upper: "is_space c \<Longrightarrow> \<not> is_upper c"
  by (auto simp: is_space_def is_upper_def Let_def)

lemma lower_blank: "list_all is_space t \<Longrightarrow> lower t = t"
  by (induction t) (simp_all add: lower_def lower_char_def space_not_upper)

lemma keyword_weight_blank:
  assumes "list_all is_space t" and "list_ex (\<lambda>c. \<not> is_space c) kw"
  shows "keyword_weight t kw = 0"
proof -
  have "\<not> sublist kw t"
  proof
    assume "sublist kw t"
    then have "set kw \<subseteq> set t" by (rule set_mono_sublist)
    then show False using assms by (auto simp: list_all_iff list_ex_iff)
  qed
  then show ?thesis by (simp add: keyword_weight_def)
qed

lemma keywords_have_letters:
  "list_all (\<lambda>p. list_all (\<lambda>kw. list_ex (\<lambda>c. \<not> is_space c) kw) (snd p)) initialize_theme_keywords"
  by code_simp

lemma theme_scores_blank:
  assumes "list_all is_space t"
    and "list_all (\<lambda>p. list_all (\<lambda>kw. list_ex (\<lambda>c. \<not> is_space c) kw) (snd p)) taxonomy"
  shows "theme_scores taxonomy t = []"
proof -
  have "theme_score t kws = 0" if "list_all (\<lambda>kw. list_ex (\<lambda>c. \<not> is_space c) kw) kws" for kws
    using that assms(1) by (induction kws) (simp_all add: theme_score_sum keyword_weight_blank)
  then show ?thesis using assms(2)
    by (induction taxonomy) (auto simp: theme_scores_def)
qed

text \<open>On an empty or whitespace-only text the theme classifier returns the empty list.\<close>

lemma classify_blank:
  assumes "list_all is_space t"
  shows "classify_review_themes ThemeAnalyzer_init (Some t) th = []"
  using theme_scores_blank[OF _ keywords_have_letters, of "lower t"] assms
  by (simp add: classify_review_themes_def ThemeAnalyzer_init_def lower_blank)

section \<open>Keyword extraction on degenerate groups\<close>

lemma fit_transform_few:
  assumes "min_df v = 2" and "max_df v = 8 / 10" and "length texts < 2"
  shows "fst (fit_transform a w v texts) = Inl ValueError"
proof -
  have "real (length texts) \<le> 1" using assms(3) by simp
  then have "max_df v * real (length (map a texts)) < real (min_df v)"
    unfolding assms(1,2) by simp
  then show ?thesis by (simp add: fit_transform_def Let_def)
qed

lemma fit_transform_pruned:
  assumes "min_df v = 2" and "max_df v = 8 / 10"
    and "limit_features (map a texts) (sort (remdups (concat (map a texts))))
           (8 / 10 * real (length texts)) 2 (max_features v) = []"
  shows "fst (fit_transform a w v texts) = Inl ValueError"
proof -
  have "limit_features (map a texts) (sort (remdups (concat (map a texts))))
          (max_df v * real (length (map a texts))) (min_df v) (max_features v) = []"
    unfolding assms(1,2) using assms(3) by simp
  then show ?thesis by (simp add: fit_transform_def Let_def)
qed

lemma extract_error:
  "fst (fit_transform a w (vectorizer self) texts) = Inl e
    \<Longrightarrow> fst (extract_keywords_tfidf a w self texts n) = []"
  by (cases "fit_transform a w (vectorizer self) texts") (simp add: extract_keywords_tfidf_def)

lemma ngrams_example:
  "extract_ngrams [''app keeps crashing''] 2 15 = [(''app keeps'', 1), (''keeps crashing'', 1)]"
  by code_simp

text \<open>
  Claim C6. With the document-frequency bounds of the analyzer (\<open>min_df = 2\<close>,
  \<open>max_df = 0.8\<close>), \<open>extract_keywords_tfidf\<close> returns the empty ranking, and no error, on
  every group of fewer than two documents and on every group whose vocabulary is pruned to
  zero terms by the bounds; and there is a group of exactly one document for which the
  ranking is empty while \<open>extract_ngrams\<close> returns bigram counts that are not empty.
\<close>

theorem degenerate_group_gives_empty_ranking:
  assumes "min_df (vectorizer self) = 2" and "max_df (vectorizer self) = 8 / 10"
  shows "(length texts < 2 \<longrightarrow> fst (extract_keywords_tfidf analyze weigh self texts n) = [])
       \<and> (limit_features (map analyze texts) (sort (remdups (concat (map analyze texts))))
            (8 / 10 * real (length texts)) 2 (max_features (vectorizer self)) = []
          \<longrightarrow> fst (extract_keywords_tfidf analyze weigh self texts n) = [])
       \<and> (\<exists>group. length group = 1
            \<and> fst (extract_keywords_tfidf analyze weigh self group n) = []
            \<and> extract_ngrams group 2 15 \<noteq> [])"
proof (intro conjI impI)
  assume "length texts < 2"
  then show "fst (extract_keywords_tfidf analyze weigh self texts n) = []"
    using fit_transform_few[OF assms] extract_error by blast
next
  assume "limit_features (map analyze texts) (sort (remdups (concat (map analyze texts))))
            (8 / 10 * real (length texts)) 2 (max_features (vectorizer self)) = []"
  then show "fst (extract_keywords_tfidf analyze weigh self texts n) = []"
    using fit_transform_pruned[OF assms] extract_error by blast
next
  have "fst (extract_keywords_tfidf analyze weigh self [''app keeps crashing''] n) = []"
    using fit_transform_few[OF assms, of "[''app keeps crashing'']"] extract_error by fastforce
  then show "\<exists>group. length group = 1
            \<and> fst (extract_keywords_tfidf analyze weigh self group n) = []
            \<and> extract_ngrams group 2 15 \<noteq> []"
    using ngrams_example by (intro exI[of _ "[''app keeps crashing'']"]) simp
qed

theorem degenerate_group_gives_empty_ranking_witness:
  "min_df (vectorizer ThemeAnalyzer_init) = 2 \<and> max_df (vectorizer ThemeAnalyzer_init) = 8 / 10
   \<and> length [''app keeps crashing''] < 2
   \<and> fst (extract_keywords_tfidf split (map (map real)) ThemeAnalyzer_init
        [''app keeps crashing''] 20) = []
   \<and> extract_ngrams [''app keeps crashing''] 2 15 = [(''app keeps'', 1), (''keeps crashing'', 1)]"
proof -
  have h1: "min_df (vectorizer ThemeAnalyzer_init) = 2"
    and h2: "max_df (vectorizer ThemeAnalyzer_init) = 8 / 10"
    by (simp_all add: ThemeAnalyzer_init_def)
  from degenerate_group_gives_empty_ranking[OF h1 h2, of "[''app keeps crashing'']" split
      "map (map real)" 20]
  have "fst (extract_keywords_tfidf split (map (map real)) ThemeAnalyzer_init
          [''app keeps crashing''] 20) = []"
    by simp
  then show ?thesis using h1 h2 ngrams_example by simp
qed

section \<open>Sentiment classification\<close>

text \<open>
  Claim C4. When the primary classifier is unavailable and TextBlob is, for every text
  whose polarity \<open>p\<close> lies in \<open>[-1, 1]\<close> the classifier returns \<open>POSITIVE\<close> with score
  \<open>(p + 1) / 2\<close> if \<open>p > 0.1\<close>, \<open>NEGATIVE\<close> with score \<open>(1 - p) / 2\<close> if \<open>p < -0.1\<close>, and
  \<open>NEUTRAL\<close> with score \<open>0.5\<close> otherwise; the label is one of the three values and the score
  lies in \<open>[0, 1]\<close>.
\<close>

theorem textblob_fallback_result:
  assumes "\<not> model_loaded self" and "use_textblob self"
    and "- 1 \<le> polarity t" and "polarity t \<le> 1"
  shows "fst (analyze_text self classifier polarity t) =
           (if polarity t > 1 / 10 then (''POSITIVE'', (polarity t + 1) / 2)
            else if polarity t < - (1 / 10) then (''NEGATIVE'', (1 - polarity t) / 2)
            else (''NEUTRAL'', 1 / 2))
         \<and> fst (fst (analyze_text self classifier polarity t))
             \<in> {''POSITIVE'', ''NEGATIVE'', ''NEUTRAL''}
         \<and> 0 \<le> snd (fst (analyze_text self classifier polarity t))
         \<and> snd (fst (analyze_text self classifier polarity t)) \<le> 1"
  using assms by (simp add: analyze_text_def analyze_sentiment_textblob_def Let_def)

theorem textblob_fallback_result_witness:
  "\<not> model_loaded \<lparr>model_loaded = False, use_textblob = True\<rparr>
   \<and> use_textblob \<lparr>model_loaded = False, use_textblob = True\<rparr>
   \<and> - 1 \<le> (\<lambda>s :: string. 1 / 2 :: real) ''good app''
   \<and> (\<lambda>s :: string. 1 / 2 :: real) ''good app'' \<le> 1
   \<and> fst (analyze_text \<lparr>model_loaded = False, use_textblob = True\<rparr>
        (\<lambda>s. Inl OtherException) (\<lambda>s. 1 / 2) ''good app'') = (''POSITIVE'', 3 / 4)"
  using textblob_fallback_result[of "\<lparr>model_loaded = False, use_textblob = True\<rparr>"
      "\<lambda>s. 1 / 2" "''good app''" "\<lambda>s. Inl OtherException"]
  by simp

lemma strip_blank: "list_all is_space t \<Longrightarrow> strip t = []"
proof -
  assume "list_all is_space t"
  then have d: "dropWhile is_space t = []" by (induction t) simp_all
  show ?thesis unfolding strip_def d by simp
qed

text \<open>
  On an empty or whitespace-only text the primary strategy and the strategy without any
  analyzer return \<open>NEUTRAL\<close> and \<open>0.5\<close> and call no model.
\<close>

lemma primary_blank:
  assumes "list_all is_space t"
  shows "analyze_text \<lparr>model_loaded = True, use_textblob = u\<rparr> classifier polarity t
           = ((''NEUTRAL'', 1 / 2), [])"
  using strip_blank[OF assms] by (simp add: analyze_text_def analyze_sentiment_distilbert_def)

lemma no_analyzer_blank:
  "analyze_text \<lparr>model_loaded = False, use_textblob = False\<rparr> classifier polarity t
     = ((''NEUTRAL'', 1 / 2), [])"
  by (simp add: analyze_text_def)

text \<open>
  Claim C3 says that on an empty or whitespace-only text every strategy returns
  \<open>NEUTRAL\<close> and \<open>0.5\<close> without invoking a model. The TextBlob strategy has no such guard:
  on the empty text it calls TextBlob, while the primary strategy on the same text calls
  nothing; and what it returns is \<open>NEUTRAL\<close> and \<open>0.5\<close> exactly when the polarity that
  TextBlob gives the empty text lies within \<open>[-0.1, 0.1]\<close>.
\<close>

theorem textblob_fallback_calls_model_on_empty_text:
  "snd (analyze_text \<lparr>model_loaded = False, use_textblob = True\<rparr> classifier polarity '''')
     = [TextBlob_call '''']
   \<and> snd (analyze_text \<lparr>model_loaded = True, use_textblob = u\<rparr> classifier polarity '''') = []
   \<and> (fst (analyze_text \<lparr>model_loaded = False, use_textblob = True\<rparr> classifier polarity '''')
         = (''NEUTRAL'', 1 / 2)
        \<longleftrightarrow> \<bar>polarity ''''\<bar> \<le> 1 / 10)"
  by (auto simp add: analyze_text_def analyze_sentiment_textblob_def
      analyze_sentiment_distilbert_def Let_def)

section \<open>Counting: \<open>Counter\<close> and \<open>value_counts\<close>\<close>

lemma set_unique: "set (unique xs) = set xs"
  by (induction xs) auto

lemma distinct_unique: "distinct (unique xs)"
  by (induction xs) (auto simp: distinct_removeAll)

lemma unique_snoc: "unique (xs @ [x]) = (if x \<in> set xs then unique xs else unique xs @ [x])"
  by (induction xs) (auto simp: set_unique)

lemma counter_add_map:
  "distinct ks \<Longrightarrow> counter_add (map (\<lambda>y. (y, f y)) ks) x =
     (if x \<in> set ks then map (\<lambda>y. (y, if y = x then f y + 1 else f y)) ks
      else map (\<lambda>y. (y, f y)) ks @ [(x, 1)])"
  by (induction ks) auto

lemma Counter_unique: "Counter xs = map (\<lambda>x. (x, count_list xs x)) (unique xs)"
proof (induction xs rule: rev_induct)
  case Nil
  then show ?case by (simp add: Counter_def)
next
  case (snoc x xs)
  have "Counter (xs @ [x]) = counter_add (Counter xs) x" by (simp add: Counter_def)
  also have "\<dots> = counter_add (map (\<lambda>y. (y, count_list xs y)) (unique xs)) x" by (simp add: snoc)
  also have "\<dots> = map (\<lambda>y. (y, count_list (xs @ [x]) y)) (unique (xs @ [x]))"
    by (auto simp: counter_add_map[OF distinct_unique] unique_snoc set_unique count_list_0_iff)
  finally show ?case .
qed

lemma sum_list_insort_key: "sum_list (map f (insort_key k x xs)) = f x + sum_list (map f xs)"
  for f :: "'a \<Rightarrow> 'b :: comm_monoid_add"
  by (induction xs) (auto simp: ac_simps)

lemma sum_list_sort_key: "sum_list (map f (sort_key k xs)) = sum_list (map f xs)"
  for f :: "'a \<Rightarrow> 'b :: comm_monoid_add"
  by (induction xs) (auto simp: sum_list_insort_key)

lemma value_counts_set: "set (value_counts xs) = (\<lambda>x. (x, count_list xs x)) ` set xs"
  by (simp add: value_counts_def by_count_desc_def Counter_unique set_unique)

lemma value_counts_distinct: "distinct (map fst (value_counts xs))"
proof -
  have "distinct (map fst (Counter xs))" by (simp add: Counter_unique comp_def distinct_unique)
  then show ?thesis
    by (simp add: value_counts_def by_count_desc_def distinct_map)
qed

lemma map_of_value_counts:
  "map_of (value_counts xs) x = (if x \<in> set xs then Some (count_list xs x) else None)"
proof (cases "x \<in> set xs")
  case True
  then have "(x, count_list xs x) \<in> set (value_counts xs)" by (simp add: value_counts_set)
  then have "map_of (value_counts xs) x = Some (count_list xs x)"
    using map_of_eq_Some_iff[OF value_counts_distinct, of xs x "count_list xs x"] by simp
  then show ?thesis using True by simp
next
  case False
  then have "x \<notin> fst ` set (value_counts xs)" by (auto simp: value_counts_set)
  then have "map_of (value_counts xs) x = None" by (simp add: map_of_eq_None_iff)
  then show ?thesis using False by simp
qed

lemma value_counts_sum:
  "sum_list (map (\<lambda>p. g (snd p)) (value_counts xs)) = (\<Sum>x \<in> set xs. g (count_list xs x))"
  for g :: "nat \<Rightarrow> 'b :: comm_monoid_add"
proof -
  have "sum_list (map (\<lambda>p. g (snd p)) (value_counts xs)) = sum_list (map (\<lambda>p. g (snd p)) (Counter xs))"
    by (simp add: value_counts_def by_count_desc_def sum_list_sort_key)
  also have "\<dots> = sum_list (map (\<lambda>x. g (count_list xs x)) (unique xs))"
    by (simp add: Counter_unique comp_def)
  also have "\<dots> = (\<Sum>x \<in> set xs. g (count_list xs x))"
    using sum_list_distinct_conv_sum_set[OF distinct_unique, of _ xs] by (simp add: set_unique)
  finally show ?thesis .
qed

lemma value_counts_length: "length (value_counts xs) = card (set xs)"
proof -
  have "length (value_counts xs) = length (unique xs)"
    by (simp add: value_counts_def by_count_desc_def Counter_unique)
  then show ?thesis using distinct_card[OF distinct_unique, of xs] by (simp add: set_unique)
qed

lemma count_list_length_filter: "count_list (map f xs) y = length (filter (\<lambda>x. f x = y) xs)"
  by (induction xs) auto

lemma sum_count_list: "(\<Sum>x \<in> set xs. count_list xs x) = length xs"
  using sum_count_set[of xs "set xs"] by simp

section \<open>The sentiment report and the pain points\<close>

lemma map_of_map_key: "map_of (map (\<lambda>k. (k, f k)) ks) k = (if k \<in> set ks then Some (f k) else None)"
  by (induction ks) auto

lemma bank_data_empty: "b \<notin> bank ` set df \<Longrightarrow> bank_data df b = []"
  by (auto simp: bank_data_def filter_empty_conv)

lemma count_label_read:
  "(case map_of (value_counts xs) l of None \<Rightarrow> 0 | Some c \<Rightarrow> c) = count_list xs l"
  by (simp add: map_of_value_counts count_list_0_iff)

lemma report_count_eq:
  "report_count (sentiment_by_bank df) l b = count_list (map sentiment_label (bank_data df b)) l"
proof -
  define vc where "vc b = value_counts (map sentiment_label (bank_data df b))" for b
  define ubanks where "ubanks = unique (map bank df)"
  define labels where "labels = unique (concat (map (\<lambda>g. map fst (snd g)) (map (\<lambda>b. (b, vc b)) ubanks)))"
  have table: "sentiment_by_bank df = map (\<lambda>l. (l, map (\<lambda>b. (b, map_of (vc b) l)) ubanks)) labels"
    by (simp add: sentiment_by_bank_def unstack_to_dict_def sentiment_counts_by_bank_def
        vc_def ubanks_def labels_def comp_def Let_def)
  have cell: "(case map_of (map (\<lambda>b. (b, map_of (vc b) l)) ubanks) b of
                 None \<Rightarrow> 0 | Some None \<Rightarrow> 0 | Some (Some c) \<Rightarrow> c)
              = count_list (map sentiment_label (bank_data df b)) l"
  proof (cases "b \<in> set ubanks")
    case True
    then show ?thesis
      using count_label_read[of "map sentiment_label (bank_data df b)" l]
      by (simp add: map_of_map_key vc_def split: option.splits)
  next
    case False
    then have "bank_data df b = []" by (simp add: ubanks_def set_unique bank_data_empty)
    then show ?thesis using False by (simp add: map_of_map_key)
  qed
  show ?thesis
  proof (cases "l \<in> set labels")
    case True
    then show ?thesis using cell by (simp add: report_count_def table map_of_map_key)
  next
    case False
    have "count_list (map sentiment_label (bank_data df b)) l = 0"
    proof (rule ccontr)
      assume "count_list (map sentiment_label (bank_data df b)) l \<noteq> 0"
      then have l: "l \<in> set (map sentiment_label (bank_data df b))" by (simp add: count_list_0_iff)
      then have "bank_data df b \<noteq> []" by auto
      then have b: "b \<in> set ubanks" using bank_data_empty[of b df] by (auto simp: ubanks_def set_unique)
      have "l \<in> fst ` set (vc b)" using l by (simp add: vc_def value_counts_set image_image)
      then have "l \<in> set labels" using b by (force simp: labels_def set_unique)
      then show False using False by simp
    qed
    then show ?thesis using False by (simp add: report_count_def table map_of_map_key)
  qed
qed

lemma count_three:
  assumes "list_all (\<lambda>x. x \<in> {a, b, c}) xs" and "a \<noteq> b" and "a \<noteq> c" and "b \<noteq> c"
  shows "count_list xs a + count_list xs b + count_list xs c = length xs"
  using assms by (induction xs) auto

lemma negative_reviews_filter:
  "negative_reviews (filter (\<lambda>r. sentiment_label r = ''NEGATIVE'') df) b = negative_reviews df b"
  by (induction df) (auto simp: negative_reviews_def bank_data_def)

lemma pain_points_negative_only:
  "top_pain_points (pain_points_of_bank (filter (\<lambda>r. sentiment_label r = ''NEGATIVE'') df) b)
     = top_pain_points (pain_points_of_bank df b)"
  by (simp add: pain_points_of_bank_def negative_themes_def negative_reviews_filter)

lemma pain_point_source:
  assumes "(t, c) \<in> set (top_pain_points (pain_points_of_bank df b))"
  shows "c = count_list (negative_themes df b) t \<and> 0 < c
       \<and> (\<exists>r th. r \<in> set df \<and> bank r = b \<and> sentiment_label r = ''NEGATIVE''
             \<and> identified_themes r = Some th \<and> t \<in> set (theme_list th))"
proof -
  have "(t, c) \<in> set (take 3 (value_counts (negative_themes df b)))"
    using assms by (auto simp: pain_points_of_bank_def split: if_splits)
  then have "(t, c) \<in> set (value_counts (negative_themes df b))" by (rule in_set_takeD)
  then have t: "t \<in> set (negative_themes df b)" and c: "c = count_list (negative_themes df b) t"
    by (auto simp: value_counts_set)
  from t obtain r th where "r \<in> set (negative_reviews df b)" "identified_themes r = Some th" "t \<in> set (theme_list th)"
    by (auto simp: negative_themes_def dropna_def split: option.splits) metis
  then have "\<exists>r th. r \<in> set df \<and> bank r = b \<and> sentiment_label r = ''NEGATIVE''
             \<and> identified_themes r = Some th \<and> t \<in> set (theme_list th)"
    by (auto simp: negative_reviews_def bank_data_def)
  moreover have "0 < c" using t c count_list_0_iff[of "negative_themes df b" t] by simp
  ultimately show ?thesis using c by blast
qed

text \<open>
  Claim C5. For annotated records whose sentiment labels are drawn from \<open>POSITIVE\<close>,
  \<open>NEGATIVE\<close> and \<open>NEUTRAL\<close>, the counts that the sentiment report gives a bank for
  the three labels sum to the number of records of that bank. Every theme counted in a
  bank's pain points is counted with the number of its mentions in the \<open>NEGATIVE\<close> records
  of that bank and occurs in such a record; the pain points are those of the \<open>NEGATIVE\<close>
  records alone, so records labelled \<open>POSITIVE\<close> or \<open>NEUTRAL\<close> contribute nothing.
\<close>

theorem sentiment_counts_sum_and_pain_points_negative:
  assumes "list_all (\<lambda>r. sentiment_label r \<in> {''POSITIVE'', ''NEGATIVE'', ''NEUTRAL''}) df"
  shows "report_count (sentiment_by_bank df) ''POSITIVE'' b
           + report_count (sentiment_by_bank df) ''NEGATIVE'' b
           + report_count (sentiment_by_bank df) ''NEUTRAL'' b = length (bank_data df b)
       \<and> (\<forall>(g, entry) \<in> set (identify_pain_points df). \<forall>(t, c) \<in> set (top_pain_points entry).
            c = count_list (negative_themes df g) t \<and> 0 < c
            \<and> (\<exists>r th. r \<in> set df \<and> bank r = g \<and> sentiment_label r = ''NEGATIVE''
                  \<and> identified_themes r = Some th \<and> t \<in> set (theme_list th)))
       \<and> map (\<lambda>p. (fst p, top_pain_points (snd p))) (identify_pain_points df)
           = map (\<lambda>g. (g, top_pain_points (pain_points_of_bank
                 (filter (\<lambda>r. sentiment_label r = ''NEGATIVE'') df) g))) (unique (map bank df))"
proof (intro conjI)
  have "list_all (\<lambda>x. x \<in> {''POSITIVE'', ''NEGATIVE'', ''NEUTRAL''}) (map sentiment_label (bank_data df b))"
    using assms by (simp add: list_all_iff bank_data_def)
  then have "count_list (map sentiment_label (bank_data df b)) ''POSITIVE''
           + count_list (map sentiment_label (bank_data df b)) ''NEGATIVE''
           + count_list (map sentiment_label (bank_data df b)) ''NEUTRAL''
           = length (map sentiment_label (bank_data df b))"
    by (rule count_three) simp_all
  then show "report_count (sentiment_by_bank df) ''POSITIVE'' b
           + report_count (sentiment_by_bank df) ''NEGATIVE'' b
           + report_count (sentiment_by_bank df) ''NEUTRAL'' b = length (bank_data df b)"
    by (simp add: report_count_eq)
next
  show "\<forall>(g, entry) \<in> set (identify_pain_points df). \<forall>(t, c) \<in> set (top_pain_points entry).
            c = count_list (negative_themes df g) t \<and> 0 < c
            \<and> (\<exists>r th. r \<in> set df \<and> bank r = g \<and> sentiment_label r = ''NEGATIVE''
                  \<and> identified_themes r = Some th \<and> t \<in> set (theme_list th))"
    using pain_point_source by (auto simp: identify_pain_points_def)
next
  show "map (\<lambda>p. (fst p, top_pain_points (snd p))) (identify_pain_points df)
           = map (\<lambda>g. (g, top_pain_points (pain_points_of_bank
                 (filter (\<lambda>r. sentiment_label r = ''NEGATIVE'') df) g))) (unique (map bank df))"
    by (simp add: identify_pain_points_def comp_def pain_points_negative_only)
qed

lemma example_pain_points:
  "map (\<lambda>p. (fst p, top_pain_points (snd p))) (identify_pain_points example_reviews)
     = [(''A'', [(''SECURITY_ACCESS'', 1), (''APP_PERFORMANCE'', 1), (''TRANSACTIONS'', 1)])]"
  by code_simp

lemma example_labels:
  "list_all (\<lambda>r. sentiment_label r \<in> {''POSITIVE'', ''NEGATIVE'', ''NEUTRAL''}) example_reviews"
  by (simp add: example_reviews_def)

lemma example_counts:
  "report_count (sentiment_by_bank example_reviews) ''POSITIVE'' ''A'' = 1
   \<and> report_count (sentiment_by_bank example_reviews) ''NEGATIVE'' ''A'' = 2
   \<and> report_count (sentiment_by_bank example_reviews) ''NEUTRAL'' ''A'' = 0"
  by code_simp

theorem sentiment_counts_sum_and_pain_points_negative_witness:
  "list_all (\<lambda>r. sentiment_label r \<in> {''POSITIVE'', ''NEGATIVE'', ''NEUTRAL''}) example_reviews
   \<and> report_count (sentiment_by_bank example_reviews) ''POSITIVE'' ''A''
       + report_count (sentiment_by_bank example_reviews) ''NEGATIVE'' ''A''
       + report_count (sentiment_by_bank example_reviews) ''NEUTRAL'' ''A'' = 3
   \<and> map (\<lambda>p. (fst p, top_pain_points (snd p))) (identify_pain_points example_reviews)
       = [(''A'', [(''SECURITY_ACCESS'', 1), (''APP_PERFORMANCE'', 1), (''TRANSACTIONS'', 1)])]"
proof -
  have len: "length (bank_data example_reviews ''A'') = 3"
    by (simp add: bank_data_def example_reviews_def)
  from sentiment_counts_sum_and_pain_points_negative[OF example_labels, of "''A''"] len example_labels example_pain_points
  show ?thesis by simp
qed

section \<open>The bias heuristics\<close>

lemma mean_indicator:
  "mean (map (\<lambda>r. if P r then 1 else 0) df) = (if df = [] then None else Some (share P df))"
proof -
  have "sum_list (map (\<lambda>r. if P r then 1 else 0) df) = real (length (filter P df))"
    by (induction df) simp_all
  then show ?thesis by (simp add: mean_def share_def)
qed

lemma value_counts_total: "sum_list (map snd (value_counts xs)) = length xs"
  using value_counts_sum[of "\<lambda>n. n" xs] sum_count_list[of xs] by simp

lemma rating_dist_get_share: "rating_dist_get df k = share (\<lambda>r. rating r = k) df"
proof (cases "k \<in> set (map rating df)")
  case True
  then show ?thesis
    by (simp add: rating_dist_get_def map_of_value_counts value_counts_total share_def
        count_list_length_filter del: set_map)
next
  case False
  then have "filter (\<lambda>r. rating r = k) df = []" by (auto simp: filter_empty_conv)
  then show ?thesis using False
    by (simp add: rating_dist_get_def map_of_value_counts share_def del: set_map)
qed

lemma reviews_per_bank_length: "length (reviews_per_bank df) = card (banks df)"
  by (simp add: reviews_per_bank_def value_counts_length banks_def)

lemma reviews_per_bank_sum:
  "sum_list (map g (reviews_per_bank df)) = (\<Sum>b \<in> banks df. g (real (length (bank_data df b))))"
  for g :: "real \<Rightarrow> real"
  using value_counts_sum[of "\<lambda>n. g (real n)" "map bank df"]
  by (simp add: reviews_per_bank_def comp_def banks_def count_list_length_filter bank_data_def
      del: set_map) (simp add: comp_def)

lemma reviews_per_bank_mean:
  "sum_list (reviews_per_bank df) / real (length (reviews_per_bank df)) = mean_reviews df"
  using reviews_per_bank_sum[of "\<lambda>x. x" df]
  by (simp add: mean_reviews_def reviews_per_bank_length)

lemma reviews_per_bank_mean_card:
  "sum_list (reviews_per_bank df) / real (card (banks df)) = mean_reviews df"
  using reviews_per_bank_mean[of df] by (simp add: reviews_per_bank_length)

lemma uneven_flag:
  "(case (std (reviews_per_bank df), mean (reviews_per_bank df)) of
      (Some s, Some m) \<Rightarrow> if s / m > 3 / 10 then [Uneven_sample_sizes] else []
    | _ \<Rightarrow> [])
   = (if 2 \<le> card (banks df) \<and> 3 / 10 < coefficient_of_variation df then [Uneven_sample_sizes] else [])"
proof (cases "2 \<le> card (banks df)")
  case False
  then have "std (reviews_per_bank df) = None"
    by (simp add: std_def reviews_per_bank_length)
  then show ?thesis using False by simp
next
  case True
  then have ne: "reviews_per_bank df \<noteq> []" using reviews_per_bank_length[of df] by auto
  have s: "std (reviews_per_bank df) = Some (sqrt ((\<Sum>b \<in> banks df. (real (length (bank_data df b)) - mean_reviews df)\<^sup>2)
            / real (card (banks df) - 1)))"
    using True reviews_per_bank_sum[of "\<lambda>x. (x - mean_reviews df)\<^sup>2" df]
    by (simp add: std_def Let_def reviews_per_bank_mean_card reviews_per_bank_length)
  have m: "mean (reviews_per_bank df) = Some (mean_reviews df)"
    using ne by (simp add: mean_def reviews_per_bank_mean_card reviews_per_bank_length)
  show ?thesis using True by (simp add: s m coefficient_of_variation_def)
qed

text \<open>
  Claim C7. The considerations that \<open>identify_ethical_considerations\<close> returns are
  exactly these, in this order: the negative-bias message when the share of \<open>NEGATIVE\<close>
  labels exceeds 70%; the polarisation message when the share of 1-star ratings or the
  share of 5-star ratings exceeds 40%; the uneven-sample message when the coefficient of
  variation of the banks' review counts (their sample standard deviation divided by their
  mean, defined for two banks or more) exceeds 0.3. Nothing else adds a consideration.
\<close>

theorem ethical_considerations_thresholds:
  "identify_ethical_considerations df =
     (if df \<noteq> [] \<and> 7 / 10 < share (\<lambda>r. sentiment_label r = ''NEGATIVE'') df
      then [High_negative_bias (share (\<lambda>r. sentiment_label r = ''NEGATIVE'') df * 100)] else [])
     @ (if df \<noteq> [] \<and> (4 / 10 < share (\<lambda>r. rating r = 1) df \<or> 4 / 10 < share (\<lambda>r. rating r = 5) df)
        then [Polarized_ratings] else [])
     @ (if 2 \<le> card (banks df) \<and> 3 / 10 < coefficient_of_variation df
        then [Uneven_sample_sizes] else [])"
proof -
  have empty: "share P [] = 0" for P :: "review \<Rightarrow> bool" by (simp add: share_def)
  show ?thesis
    unfolding identify_ethical_considerations_def uneven_flag mean_indicator rating_dist_get_share
    by (cases "df = []") (simp_all add: empty)
qed

section \<open>The classifier against the specification\<close>

lemma word_here_iff:
  "word_here d kw s \<longleftrightarrow> (\<exists>post. s = kw @ post \<and> (post = [] \<or> d (hd post)))"
proof
  assume "word_here d kw s"
  then obtain post where s: "s = kw @ post" and p: "case post of [] \<Rightarrow> True | x # xs \<Rightarrow> d x"
    by (auto simp: word_here_def prefix_def)
  from p have "post = [] \<or> d (hd post)" by (cases post) simp_all
  with s show "\<exists>post. s = kw @ post \<and> (post = [] \<or> d (hd post))" by blast
next
  assume "\<exists>post. s = kw @ post \<and> (post = [] \<or> d (hd post))"
  then obtain post where s: "s = kw @ post" and p: "post = [] \<or> d (hd post)" by blast
  from p have "case post of [] \<Rightarrow> True | x # xs \<Rightarrow> d x" by (cases post) simp_all
  with s show "word_here d kw s" by (simp add: word_here_def)
qed

lemma whole_word_from_iff:
  "whole_word_from d b kw s \<longleftrightarrow>
     (\<exists>pre post. s = pre @ kw @ post \<and> (if pre = [] then b else d (last pre))
        \<and> (post = [] \<or> d (hd post)))"
proof (induction s arbitrary: b)
  case Nil
  then show ?case by auto
next
  case (Cons c cs)
  let ?R = "\<lambda>b s. \<exists>pre post. s = pre @ kw @ post \<and> (if pre = [] then b else d (last pre))
        \<and> (post = [] \<or> d (hd post))"
  have "?R b (c # cs) \<longleftrightarrow> (b \<and> word_here d kw (c # cs)) \<or> ?R (d c) cs"
  proof
    assume "?R b (c # cs)"
    then obtain pre post where s: "c # cs = pre @ kw @ post"
      and l: "if pre = [] then b else d (last pre)" and r: "post = [] \<or> d (hd post)" by blast
    show "(b \<and> word_here d kw (c # cs)) \<or> ?R (d c) cs"
    proof (cases pre)
      case Nil
      then show ?thesis using s l r by (auto simp: word_here_iff)
    next
      case (Cons p pre')
      then have "cs = pre' @ kw @ post" and "if pre' = [] then d c else d (last pre')"
        using s l by (auto split: if_splits)
      then show ?thesis using r by blast
    qed
  next
    assume "(b \<and> word_here d kw (c # cs)) \<or> ?R (d c) cs"
    then show "?R b (c # cs)"
    proof
      assume "b \<and> word_here d kw (c # cs)"
      then obtain post where "c # cs = [] @ kw @ post" "post = [] \<or> d (hd post)" and b
        by (auto simp: word_here_iff)
      then show ?thesis by (intro exI[of _ "[]"] exI[of _ post]) simp
    next
      assume "?R (d c) cs"
      then obtain pre post where s: "cs = pre @ kw @ post"
        and l: "if pre = [] then d c else d (last pre)" and r: "post = [] \<or> d (hd post)" by blast
      show ?thesis using s l r by (intro exI[of _ "c # pre"] exI[of _ post]) auto
    qed
  qed
  then show ?case using Cons.IH[of "d c"] by simp
qed

lemma whole_word_code [code]: "whole_word d kw s = whole_word_from d True kw s"
  by (auto simp: whole_word_def whole_word_from_iff)

lemma padded_whole_word:
  "sublist ('' '' @ kw @ '' '') ('' '' @ t @ '' '') \<longleftrightarrow> whole_word is_blank kw t"
proof
  assume "sublist ('' '' @ kw @ '' '') ('' '' @ t @ '' '')"
  then obtain ps ss where e: "CHR '' '' # t @ [CHR '' ''] = ps @ CHR '' '' # kw @ CHR '' '' # ss"
    by (auto simp: sublist_def)
  show "whole_word is_blank kw t"
  proof (cases ps)
    case Nil
    with e have e1: "t @ [CHR '' ''] = kw @ CHR '' '' # ss" by simp
    show ?thesis
    proof (cases ss rule: rev_cases)
      case Nil
      with e1 have "t = [] @ kw @ []" by simp
      then show ?thesis unfolding whole_word_def by (intro exI[of _ "[]"]) simp
    next
      case (snoc ss' x)
      with e1 have "t @ [CHR '' ''] = (kw @ CHR '' '' # ss') @ [x]" by simp
      then have "t = [] @ kw @ (CHR '' '' # ss')" by (simp only: append1_eq_conv) simp
      then show ?thesis unfolding whole_word_def
        by (intro exI[of _ "[]"] exI[of _ "CHR '' '' # ss'"]) (simp add: is_blank_def)
    qed
  next
    case (Cons p ps')
    with e have e1: "t @ [CHR '' ''] = ps' @ CHR '' '' # kw @ CHR '' '' # ss" by auto
    show ?thesis
    proof (cases ss rule: rev_cases)
      case Nil
      with e1 have "t @ [CHR '' ''] = (ps' @ CHR '' '' # kw) @ [CHR '' '']" by simp
      then have "t = (ps' @ [CHR '' '']) @ kw @ []" by (simp only: append1_eq_conv) simp
      then show ?thesis unfolding whole_word_def
        by (intro exI[of _ "ps' @ [CHR '' '']"] exI[of _ "[]"]) (simp add: is_blank_def)
    next
      case (snoc ss' x)
      with e1 have "t @ [CHR '' ''] = (ps' @ CHR '' '' # kw @ CHR '' '' # ss') @ [x]" by simp
      then have "t = (ps' @ [CHR '' '']) @ kw @ (CHR '' '' # ss')" by (simp only: append1_eq_conv) simp
      then show ?thesis unfolding whole_word_def
        by (intro exI[of _ "ps' @ [CHR '' '']"] exI[of _ "CHR '' '' # ss'"]) (simp add: is_blank_def)
    qed
  qed
next
  assume "whole_word is_blank kw t"
  then obtain pre post where t: "t = pre @ kw @ post"
    and l: "pre = [] \<or> last pre = CHR '' ''" and r: "post = [] \<or> hd post = CHR '' ''"
    by (auto simp: whole_word_def is_blank_def)
  from l obtain ps where ps: "CHR '' '' # pre = ps @ [CHR '' '']"
  proof (cases pre rule: rev_cases)
    case Nil
    then show ?thesis using that[of "[]"] by simp
  next
    case (snoc pre' x)
    then show ?thesis using l that[of "CHR '' '' # pre'"] by simp
  qed
  from r obtain ss where ss: "post @ [CHR '' ''] = CHR '' '' # ss"
  proof (cases post)
    case Nil
    then show ?thesis using that[of "[]"] by simp
  next
    case (Cons x post')
    then show ?thesis using r that[of "post' @ [CHR '' '']"] by simp
  qed
  have "'' '' @ t @ '' '' = (CHR '' '' # pre) @ kw @ (post @ [CHR '' ''])" by (simp add: t)
  also have "\<dots> = ps @ ('' '' @ kw @ '' '') @ ss" by (simp add: ps ss)
  finally show "sublist ('' '' @ kw @ '' '') ('' '' @ t @ '' '')" unfolding sublist_def by blast
qed

lemma whole_word_sublist: "whole_word d kw t \<Longrightarrow> sublist kw t"
  by (auto simp: whole_word_def sublist_def)

lemma keyword_weight_spec: "keyword_weight t kw = spec_weight is_blank t kw"
  unfolding keyword_weight_def spec_weight_def padded_whole_word
  using whole_word_sublist[of is_blank kw t] by auto

lemma theme_score_spec: "theme_score t kws = spec_score is_blank t kws"
proof -
  have "keyword_weight t = spec_weight is_blank t" by (rule ext) (rule keyword_weight_spec)
  then show ?thesis by (simp add: theme_score_sum spec_score_def)
qed

lemma max_of_Max: "xs \<noteq> [] \<Longrightarrow> max_of xs = Max (set xs)"
proof (induction xs)
  case Nil
  then show ?case by simp
next
  case (Cons x xs)
  then show ?case by (cases xs) (simp_all add: max_def)
qed

lemma theme_scores_set:
  "set (theme_scores taxonomy t)
     = {(theme, s). \<exists>kws. (theme, kws) \<in> set taxonomy \<and> s = spec_score is_blank t kws \<and> 0 < s}"
  by (auto simp: theme_scores_def theme_score_spec)

lemma theme_scores_values:
  "set (map snd (theme_scores taxonomy t)) = nonzero_scores is_blank taxonomy t"
  by (force simp: theme_scores_set nonzero_scores_def)

lemma nonzero_scores_list:
  "nonzero_scores d taxonomy t
     = set (filter (\<lambda>s. 0 < s) (map (\<lambda>p. spec_score d t (snd p)) taxonomy))"
  by (force simp: nonzero_scores_def)

lemma spec_assigned_list:
  "spec_assigned d taxonomy t th theme =
     list_ex (\<lambda>p. fst p = theme \<and> 0 < spec_score d t (snd p)
        \<and> th \<le> real (spec_score d t (snd p))
             / real (Max (set (filter (\<lambda>s. 0 < s) (map (\<lambda>p. spec_score d t (snd p)) taxonomy)))))
       taxonomy"
  by (force simp: spec_assigned_def nonzero_scores_list list_ex_iff)

text \<open>
  On a text whose only whitespace is the space character, as every cleaned text is, a whole
  word delimited by whitespace is a whole word delimited by spaces.
\<close>

lemma whole_word_space_blank:
  assumes "list_all (\<lambda>c. is_space c \<longrightarrow> c = CHR '' '') t"
  shows "whole_word is_space kw t = whole_word is_blank kw t"
proof -
  have "is_space c = is_blank c" if "c \<in> set t" for c
    using that assms by (auto simp: list_all_iff is_blank_def is_space_def)
  moreover have "pre \<noteq> [] \<Longrightarrow> t = pre @ kw @ post \<Longrightarrow> last pre \<in> set t" for pre post by auto
  moreover have "post \<noteq> [] \<Longrightarrow> t = pre @ kw @ post \<Longrightarrow> hd post \<in> set t" for pre post by auto
  ultimately show ?thesis unfolding whole_word_def by metis
qed

text \<open>
  Claim C1, as amended. For every non-empty text and every taxonomy, \<open>classify_review_themes\<close>
  with the default threshold 0.1 returns the theme exactly when the theme is assigned in
  the sense of the specification with the space character as the only delimiter: the
  theme's score is the sum over its keywords of 2 for a keyword that occurs in the
  lower-cased text with, on each side, a space or the end of the text, 1 for a keyword that
  only occurs as a substring, 0 otherwise; the score is positive; and the score divided by
  the largest score of a theme with a positive score is at least 0.1.
\<close>

theorem classify_review_themes_by_space_delimited_words:
  assumes "t \<noteq> []"
  shows "theme \<in> set (classify_review_themes self (Some t) default_threshold)
         \<longleftrightarrow> spec_assigned is_blank (theme_keywords self) (lower t) default_threshold theme"
proof (cases "theme_scores (theme_keywords self) (lower t) = []")
  case True
  then have "set (theme_scores (theme_keywords self) (lower t)) = {}" by simp
  then have "\<not> spec_assigned is_blank (theme_keywords self) (lower t) default_threshold theme"
    unfolding theme_scores_set spec_assigned_def by blast
  then show ?thesis using True assms by (simp add: classify_review_themes_def)
next
  case False
  let ?scores = "theme_scores (theme_keywords self) (lower t)"
  have m: "max_of (map snd ?scores) = Max (nonzero_scores is_blank (theme_keywords self) (lower t))"
    using False max_of_Max[of "map snd ?scores"] by (simp only: theme_scores_values) simp
  have "theme \<in> set (classify_review_themes self (Some t) default_threshold)
        \<longleftrightarrow> (\<exists>s. (theme, s) \<in> set ?scores
               \<and> default_threshold \<le> real s / real (max_of (map snd ?scores)))"
    using False assms by (force simp: classify_review_themes_def Let_def)
  also have "\<dots> \<longleftrightarrow> spec_assigned is_blank (theme_keywords self) (lower t) default_threshold theme"
    unfolding m theme_scores_set spec_assigned_def by auto
  finally show ?thesis .
qed

lemma tabbed_code: "classify_review_themes ThemeAnalyzer_init (Some tabbed_text) default_threshold
   = [''APP_PERFORMANCE'', ''RELIABILITY_ISSUES'']"
  by code_simp

lemma tabbed_spec_space:
  "\<not> spec_assigned is_space initialize_theme_keywords (lower tabbed_text) default_threshold ''RELIABILITY_ISSUES''"
  unfolding spec_assigned_list by code_simp

lemma tabbed_scores:
  "spec_score is_space (lower tabbed_text) (the (map_of initialize_theme_keywords ''APP_PERFORMANCE'')) = 12
   \<and> spec_score is_blank (lower tabbed_text) (the (map_of initialize_theme_keywords ''APP_PERFORMANCE'')) = 6
   \<and> spec_score is_space (lower tabbed_text) (the (map_of initialize_theme_keywords ''RELIABILITY_ISSUES'')) = 1"
  by code_simp

text \<open>
  With any whitespace as delimiter, as claim C1 is worded, the characterisation fails: on
  a text whose words are separated by tabs the classifier returns \<open>RELIABILITY_ISSUES\<close>
  (score 1 against the largest score 6), which the specification's wording does not
  assign (score 1 against the largest score 12).
\<close>

theorem classify_review_themes_tab_counterexample:
  "''RELIABILITY_ISSUES'' \<in> set (classify_review_themes ThemeAnalyzer_init (Some tabbed_text) default_threshold)
   \<and> \<not> spec_assigned is_space (theme_keywords ThemeAnalyzer_init) (lower tabbed_text) default_threshold ''RELIABILITY_ISSUES''"
proof -
  have "theme_keywords ThemeAnalyzer_init = initialize_theme_keywords" by (simp add: ThemeAnalyzer_init_def)
  then show ?thesis using tabbed_code tabbed_spec_space by simp
qed

theorem classify_review_themes_by_space_delimited_words_witness:
  "''app is slow and keeps crashing'' \<noteq> []
   \<and> ''APP_PERFORMANCE'' \<in> set (classify_review_themes ThemeAnalyzer_init (Some ''app is slow and keeps crashing'') default_threshold)
   \<and> spec_assigned is_blank (theme_keywords ThemeAnalyzer_init) (lower ''app is slow and keeps crashing'') default_threshold ''APP_PERFORMANCE''"
proof -
  have a: "''APP_PERFORMANCE'' \<in> set (classify_review_themes ThemeAnalyzer_init (Some ''app is slow and keeps crashing'') default_threshold)"
    by code_simp
  have n: "''app is slow and keeps crashing'' \<noteq> []" by simp
  from classify_review_themes_by_space_delimited_words[OF n, of "''APP_PERFORMANCE''" ThemeAnalyzer_init] a show ?thesis by simp
qed

section \<open>Text cleaning is not idempotent\<close>

lemma lower_char_not_upper: "\<not> is_upper (lower_char c)"
  by (auto simp: lower_char_def is_upper_def Let_def)

lemma blank_facts: "\<not> is_upper CHR '' ''" "\<not> is_digit CHR '' ''" "is_space CHR '' ''" "\<not> is_word CHR '' ''"
  by (simp_all add: is_upper_def is_digit_def is_space_def is_word_def is_lower_def)

lemma tag_facts: "\<not> is_word CHR ''@''" "\<not> is_word CHR ''#''"
  by (simp_all add: is_upper_def is_digit_def is_word_def is_lower_def)

lemma word_not_space: "is_word c \<Longrightarrow> \<not> is_space c"
  by (auto simp: is_upper_def is_digit_def is_space_def is_word_def is_lower_def Let_def)

text \<open>Every stage only deletes characters or replaces them by a space.\<close>

lemma set_sub_url: "set (sub_url del s) \<subseteq> set s"
  by (induction s arbitrary: del) (auto split: if_splits)

lemma set_sub_tag: "set (sub_tag tag del s) \<subseteq> set s"
  by (induction s arbitrary: del) (auto split: if_splits)

lemma set_sub_spaces: "set (sub_spaces prev s) \<subseteq> insert CHR '' '' {c \<in> set s. \<not> is_space c}"
  by (induction s arbitrary: prev) (auto split: if_splits)

lemma set_strip: "set (strip s) \<subseteq> set s"
proof -
  have "set (dropWhile P xs) \<subseteq> set xs" for P and xs :: string
    by (auto dest: set_dropWhileD)
  then show ?thesis unfolding strip_def
    by (metis set_rev subset_trans)
qed

text \<open>No stage makes the text longer, and removing a URL makes it shorter.\<close>

lemma length_sub_url: "length (sub_url del s) \<le> length s"
  by (induction s arbitrary: del) (auto simp: le_SucI)

lemma length_sub_tag: "length (sub_tag tag del s) \<le> length s"
  by (induction s arbitrary: del) (auto simp: le_SucI)

lemma length_sub_spaces: "length (sub_spaces prev s) \<le> length s"
  by (induction s arbitrary: prev) (auto simp: le_SucI)

lemma length_strip: "length (strip s) \<le> length s"
proof -
  have "length (dropWhile P xs) \<le> length xs" for P and xs :: string
    by (rule length_dropWhile_le)
  from this[of is_space "rev (dropWhile is_space s)"] this[of is_space s]
  show ?thesis unfolding strip_def by simp
qed

lemma sub_url_shrinks: "has_url s \<Longrightarrow> length (sub_url del s) < length s"
proof (induction s arbitrary: del)
  case Nil
  then show ?case by simp
next
  case (Cons c cs)
  show ?case
  proof (cases "url_start (c # cs)")
    case True
    then show ?thesis using length_sub_url[of True cs] by (simp add: less_Suc_eq_le)
  next
    case False
    with Cons.prems have "has_url cs" by simp
    then have "length (sub_url d cs) < length cs" for d by (rule Cons.IH)
    from this[of True] this[of False] show ?thesis by auto
  qed
qed

lemma sub_url_id: "\<not> has_url s \<Longrightarrow> sub_url False s = s"
  by (induction s) simp_all

lemma sub_tag_id: "tag \<notin> set s \<Longrightarrow> sub_tag tag False s = s"
  by (induction s) auto

lemma lower_id: "list_all (\<lambda>c. \<not> is_upper c) s \<Longrightarrow> lower s = s"
  by (induction s) (simp_all add: lower_def lower_char_def)

lemma sub_digits_id: "list_all (\<lambda>c. \<not> is_digit c) s \<Longrightarrow> sub_digits s = s"
  by (induction s) (simp_all add: sub_digits_def)

lemma sub_punct_id: "list_all (\<lambda>c. is_word c \<or> is_space c) s \<Longrightarrow> sub_punct s = s"
  by (induction s) (simp_all add: sub_punct_def)

text \<open>Collapsing whitespace is idempotent, and stripping keeps a collapsed text collapsed.\<close>

lemma sub_spaces_twice: "sub_spaces prev (sub_spaces prev s) = sub_spaces prev s"
  by (induction s arbitrary: prev) (simp_all add: blank_facts)

lemma collapsed_sub_spaces: "collapsed prev (sub_spaces prev s)"
  by (induction s arbitrary: prev) (simp_all add: blank_facts)

lemma collapsed_id: "collapsed prev s \<Longrightarrow> sub_spaces prev s = s"
  by (induction s arbitrary: prev) (auto split: if_splits)

lemma collapsed_weaken: "collapsed prev s \<Longrightarrow> collapsed False s"
  by (cases s) (auto split: if_splits)

lemma collapsed_suffix: "collapsed prev (xs @ ys) \<Longrightarrow> collapsed False ys"
proof (induction xs arbitrary: prev)
  case Nil
  then show ?case by (simp add: collapsed_weaken)
next
  case (Cons x xs)
  then show ?case by (auto split: if_splits)
qed

lemma collapsed_prefix: "collapsed prev (xs @ ys) \<Longrightarrow> collapsed prev xs"
  by (induction xs arbitrary: prev) (auto split: if_splits)

lemma collapsed_strip:
  assumes "collapsed prev s"
  shows "collapsed False (strip s)"
proof -
  define d where "d = dropWhile is_space s"
  have "s = takeWhile is_space s @ d" by (simp add: d_def)
  with assms have d: "collapsed False d" by (metis collapsed_suffix)
  have "rev d = takeWhile is_space (rev d) @ dropWhile is_space (rev d)" by simp
  then have "d = rev (dropWhile is_space (rev d)) @ rev (takeWhile is_space (rev d))"
    by (metis rev_append rev_rev_ident)
  with d have "collapsed False (rev (dropWhile is_space (rev d)))" by (metis collapsed_prefix)
  then show ?thesis by (simp add: strip_def d_def)
qed

lemma strip_twice: "strip (strip s) = strip s"
proof -
  define d where "d = dropWhile is_space s"
  define e where "e = dropWhile is_space (rev d)"
  have s: "strip s = rev e" by (simp add: strip_def d_def e_def)
  have "dropWhile is_space (rev e) = rev e"
  proof (cases "e = []")
    case True
    then show ?thesis by simp
  next
    case False
    then have "rev d \<noteq> []" by (auto simp: e_def)
    then have "d \<noteq> []" by simp
    then have "\<not> is_space (hd d)" unfolding d_def by (rule hd_dropWhile)
    moreover have "rev d = takeWhile is_space (rev d) @ e" by (simp add: e_def)
    then have "last (rev d) = last e" using False by (metis last_appendR)
    then have "last e = hd d" using \<open>d \<noteq> []\<close> by (simp add: last_rev)
    ultimately have "\<not> is_space (hd (rev e))" using False by (simp add: hd_rev)
    then show ?thesis by (simp add: dropWhile_eq_self_iff)
  qed
  moreover have "dropWhile is_space e = e" by (simp add: e_def)
  ultimately show ?thesis unfolding s by (simp add: strip_def)
qed

text \<open>The characters of a cleaned text.\<close>

lemma clean_text_chars:
  assumes "c \<in> set (clean_text t)"
  shows "c = CHR '' '' \<or> (is_word c \<and> \<not> is_upper c \<and> \<not> is_digit c)"
proof (cases t)
  case None
  with assms show ?thesis by (simp add: clean_text_def)
next
  case (Some u)
  define e where "e = sub_digits (sub_tag CHR ''#'' False (sub_tag CHR ''@'' False (sub_url False (lower u))))"
  have s: "clean_text t = strip (sub_spaces False (sub_punct e))"
    by (simp add: Some clean_text_def e_def)
  from assms have "c \<in> set (sub_spaces False (sub_punct e))"
    unfolding s using set_strip by blast
  then have "c = CHR '' '' \<or> (c \<in> set (sub_punct e) \<and> \<not> is_space c)"
    using set_sub_spaces[of False "sub_punct e"] by blast
  then show ?thesis
  proof
    assume "c = CHR '' ''"
    then show ?thesis ..
  next
    assume c: "c \<in> set (sub_punct e) \<and> \<not> is_space c"
    then have "c \<in> set e \<and> is_word c"
      by (auto simp: sub_punct_def blank_facts split: if_splits)
    moreover from this have "\<not> is_digit c"
      and "c \<in> set (sub_tag CHR ''#'' False (sub_tag CHR ''@'' False (sub_url False (lower u))))"
      by (simp_all add: e_def sub_digits_def)
    moreover from this(2) have "c \<in> set (sub_tag CHR ''@'' False (sub_url False (lower u)))"
      by (rule subsetD[OF set_sub_tag])
    then have "c \<in> set (sub_url False (lower u))"
      by (rule subsetD[OF set_sub_tag])
    then have "c \<in> set (lower u)"
      by (rule subsetD[OF set_sub_url])
    moreover from this have "\<not> is_upper c"
      by (auto simp: lower_def lower_char_not_upper)
    ultimately show ?thesis by blast
  qed
qed

lemma clean_text_collapsed: "collapsed False (clean_text t)"
  by (cases t) (simp_all add: clean_text_def collapsed_strip[OF collapsed_sub_spaces])

lemma clean_text_stripped: "strip (clean_text t) = clean_text t"
proof (cases t)
  case None
  then show ?thesis by (simp add: clean_text_def strip_def)
next
  case (Some u)
  then show ?thesis by (simp add: clean_text_def strip_twice)
qed

lemma clean_text_length: "length (clean_text (Some s)) \<le> length (sub_url False (lower s))"
proof -
  have "length (clean_text (Some s))
      \<le> length (sub_spaces False (sub_punct (sub_digits
          (sub_tag CHR ''#'' False (sub_tag CHR ''@'' False (sub_url False (lower s)))))))"
    unfolding clean_text_def option.case by (rule length_strip)
  also have "\<dots> \<le> length (sub_punct (sub_digits
          (sub_tag CHR ''#'' False (sub_tag CHR ''@'' False (sub_url False (lower s))))))"
    by (rule length_sub_spaces)
  also have "\<dots> = length (sub_digits
          (sub_tag CHR ''#'' False (sub_tag CHR ''@'' False (sub_url False (lower s)))))"
    by (simp add: sub_punct_def)
  also have "\<dots> \<le> length (sub_tag CHR ''#'' False (sub_tag CHR ''@'' False (sub_url False (lower s))))"
    by (simp add: sub_digits_def)
  also have "\<dots> \<le> length (sub_tag CHR ''@'' False (sub_url False (lower s)))"
    by (rule length_sub_tag)
  also have "\<dots> \<le> length (sub_url False (lower s))"
    by (rule length_sub_tag)
  finally show ?thesis .
qed

text \<open>A cleaned text is in the ASCII range, so that cleaning it again stays in that range.\<close>

lemma clean_text_ascii: "ascii_text (Some (clean_text t))"
proof -
  have "is_ascii c" if "c \<in> set (clean_text t)" for c
    using clean_text_chars[OF that]
    by (auto simp: is_ascii_def is_word_def is_upper_def is_lower_def is_digit_def Let_def)
  then show ?thesis by (simp add: ascii_text_def list_all_iff)
qed

text \<open>
  Claim C10, as amended. For every input text in the ASCII range, missing texts included,
  cleaning the cleaned text returns it unchanged exactly when the cleaned text has no URL-like
  token, that is, no \<open>http\<close> followed by a non-whitespace character. Such a token can appear
  in the cleaned text because the digits are removed after the URLs.
\<close>

theorem clean_text_idempotent_iff_no_url_on_ascii:
  assumes "ascii_text t"
  shows "clean_text (Some (clean_text t)) = clean_text t \<longleftrightarrow> \<not> has_url (clean_text t)"
proof -
  define s where "s = clean_text t"
  have chars: "c = CHR '' '' \<or> (is_word c \<and> \<not> is_upper c \<and> \<not> is_digit c)" if "c \<in> set s" for c
    using that unfolding s_def by (rule clean_text_chars)
  have up: "\<not> is_upper c" if "c \<in> set s" for c
    using chars[OF that] blank_facts(1) by blast
  have dig: "\<not> is_digit c" if "c \<in> set s" for c
    using chars[OF that] blank_facts(2) by blast
  have ws: "is_word c \<or> is_space c" if "c \<in> set s" for c
    using chars[OF that] blank_facts(3) by blast
  have at: "CHR ''@'' \<notin> set s"
  proof
    assume "CHR ''@'' \<in> set s"
    from chars[OF this] show False by (simp add: tag_facts)
  qed
  have hash: "CHR ''#'' \<notin> set s"
  proof
    assume "CHR ''#'' \<in> set s"
    from chars[OF this] show False by (simp add: tag_facts)
  qed
  have low: "lower s = s"
    by (rule lower_id) (simp add: list_all_iff up)
  have "clean_text (Some s) = s" if "\<not> has_url s"
  proof -
    have 1: "sub_url False s = s" using that by (rule sub_url_id)
    have 2: "sub_tag CHR ''@'' False s = s" using at by (rule sub_tag_id)
    have 3: "sub_tag CHR ''#'' False s = s" using hash by (rule sub_tag_id)
    have 4: "sub_digits s = s"
      by (rule sub_digits_id) (simp add: list_all_iff dig)
    have 5: "sub_punct s = s"
      by (rule sub_punct_id) (simp add: list_all_iff ws)
    have 6: "sub_spaces False s = s"
      unfolding s_def by (rule collapsed_id[OF clean_text_collapsed])
    have 7: "strip s = s"
      unfolding s_def by (rule clean_text_stripped)
    show ?thesis unfolding clean_text_def option.case low 1 2 3 4 5 6 7 ..
  qed
  moreover have "clean_text (Some s) \<noteq> s" if "has_url s"
  proof -
    have "length (clean_text (Some s)) \<le> length (sub_url False s)"
      using clean_text_length[of s] unfolding low .
    also have "\<dots> < length s" using that by (rule sub_url_shrinks)
    finally show ?thesis by auto
  qed
  ultimately show ?thesis unfolding s_def by blast
qed

text \<open>
  The sample text is in the ASCII range and its cleaned text has no URL-like token: cleaning
  it twice gives what cleaning it once gives.
\<close>

theorem clean_text_idempotent_iff_no_url_on_ascii_witness:
  "ascii_text (Some sample_text)
    \<and> \<not> has_url (clean_text (Some sample_text))
    \<and> clean_text (Some (clean_text (Some sample_text))) = clean_text (Some sample_text)"
proof -
  have a: "ascii_text (Some sample_text)" by code_simp
  have b: "\<not> has_url (clean_text (Some sample_text))" by code_simp
  from clean_text_idempotent_iff_no_url_on_ascii[OF a] a b show ?thesis by simp
qed

lemma sample_text_cleaned: "clean_text (Some sample_text) = ''the app is amazing but it crashes sometimes''"
  by code_simp

text \<open>
  Claim C10, as stated, fails. The text \<open>htt1ps\<close> has no URL, so the first pass only removes
  the digit and returns \<open>https\<close>; in the second pass \<open>https\<close> matches \<open>http\S+\<close> and is
  removed, so that cleaning the cleaned text returns the empty string.
\<close>

theorem clean_text_not_idempotent:
  "clean_text (Some ''htt1ps'') = ''https''
    \<and> clean_text (Some ''https'') = []
    \<and> clean_text (Some (clean_text (Some ''htt1ps''))) \<noteq> clean_text (Some ''htt1ps'')"
  by code_simp

end
